theory Spec2Isabelle
  imports Complex_Main "HOL-Library.Multiset" "HOL-Library.Product_Lexorder" "HOL-Library.AList"
    "HOL-Library.Code_Target_Numeral"
begin

section \<open>Python's float\<close>

text \<open>
  A Python \<open>float\<close> is an IEEE 754 binary64.  Its finite values are the numbers
  \<open>(-1)^s * m * 2^e\<close> with a sign \<open>s\<close>, a mantissa \<open>m < 2^53\<close> and an exponent
  \<open>-1074 <= e <= 971\<close>, so each is a whole multiple of \<open>2^(-1074)\<close>.  A finite value
  is kept as its sign and the number of these units: \<open>Finito s u\<close> is
  \<open>(-1)^s * u * 2^(-1074)\<close>, and both zeros are there.  The type has every such
  multiple, also those that need more than 53 binary digits and are no binary64;
  \<open>es_binary64\<close> tells them apart, and what the subtraction returns is one
  (\<open>redondear_binary64\<close>).  The other values are the two infinities
  (\<open>Infinito True\<close> is the negative one) and not-a-number.
\<close>

datatype pyfloat = Finito bool nat | Infinito bool | NaN

text \<open>
  \<open>unidades s u\<close> is the value counted in units, an integer.  The comparisons \<open>==\<close>
  and \<open><\<close> of Python go by value, and are false as soon as one side is
  not-a-number; \<open>!=\<close> is the negation of \<open>==\<close>.
\<close>

definition unidades :: "bool \<Rightarrow> nat \<Rightarrow> int" where
  "unidades s u = (if s then - int u else int u)"

fun igual :: "pyfloat \<Rightarrow> pyfloat \<Rightarrow> bool" where
  "igual (Finito s u) (Finito t v) = (unidades s u = unidades t v)"
| "igual (Infinito s) (Infinito t) = (s = t)"
| "igual _ _ = False"

fun menor :: "pyfloat \<Rightarrow> pyfloat \<Rightarrow> bool" where
  "menor (Finito s u) (Finito t v) = (unidades s u < unidades t v)"
| "menor (Finito s u) (Infinito t) = (\<not> t)"
| "menor (Infinito s) (Finito t v) = s"
| "menor (Infinito s) (Infinito t) = (s \<and> \<not> t)"
| "menor _ _ = False"

text \<open>
  Rounding to nearest, ties to even.  \<open>bits n\<close> is the number of binary digits of
  \<open>n\<close>; \<open>mitad_par n d\<close> is \<open>n / 2^d\<close> rounded to a whole number; \<open>redondear s u\<close> is the
  binary64 nearest to \<open>u\<close> units with sign \<open>s\<close>: the digits below the first 53 are
  rounded away, and a result of \<open>2^1024\<close> (that is \<open>2^2098\<close> units) or more is an
  infinity.
\<close>

function bits :: "nat \<Rightarrow> nat" where
  "bits n = (if n = 0 then 0 else Suc (bits (n div 2)))"
  by pat_completeness auto
termination
  by (relation "measure id") auto

declare bits.simps [simp del]

definition mitad_par :: "nat \<Rightarrow> nat \<Rightarrow> nat" where
  "mitad_par n d =
     (let q = n div 2 ^ d; r = n mod 2 ^ d
      in if 2 * r < 2 ^ d then q
         else if 2 ^ d < 2 * r then q + 1
         else if even q then q else q + 1)"

definition redondear :: "bool \<Rightarrow> nat \<Rightarrow> pyfloat" where
  "redondear s u =
     (let d = bits u - 53; v = mitad_par u d * 2 ^ d
      in if 2 ^ 2098 \<le> v then Infinito s else Finito s v)"

definition es_binary64 :: "pyfloat \<Rightarrow> bool" where
  "es_binary64 x =
     (case x of
        Finito s u \<Rightarrow> u < 2 ^ 2098 \<and> u mod 2 ^ (bits u - 53) = 0
      | Infinito s \<Rightarrow> True
      | NaN \<Rightarrow> True)"

text \<open>
  The subtraction \<open>a - b\<close> of two floats: the exact difference, rounded.  An exact
  zero is negative only for \<open>(-0.0) - (+0.0)\<close>.
\<close>

fun restar :: "pyfloat \<Rightarrow> pyfloat \<Rightarrow> pyfloat" where
  "restar (Finito s u) (Finito t v) =
     (let d = unidades s u - unidades t v
      in if d = 0 then Finito (s \<and> \<not> t) 0
         else redondear (d < 0) (nat \<bar>d\<bar>))"
| "restar (Finito s u) (Infinito t) = Infinito (\<not> t)"
| "restar (Infinito s) (Finito t v) = Infinito s"
| "restar (Infinito s) (Infinito t) = (if s = t then NaN else Infinito s)"
| "restar _ _ = NaN"

text \<open>
  A number that a function returns is an \<open>int\<close> or a \<open>float\<close>.  Its comparisons
  with the integer \<open>0\<close> go by value; on not-a-number each of them is false.
\<close>

datatype numero = Entero int | Flotante pyfloat

fun es_negativo :: "numero \<Rightarrow> bool" where
  "es_negativo (Entero n) = (n < 0)"
| "es_negativo (Flotante (Finito s u)) = (unidades s u < 0)"
| "es_negativo (Flotante (Infinito s)) = s"
| "es_negativo (Flotante NaN) = False"

fun es_cero :: "numero \<Rightarrow> bool" where
  "es_cero (Entero n) = (n = 0)"
| "es_cero (Flotante (Finito s u)) = (unidades s u = 0)"
| "es_cero (Flotante (Infinito s)) = False"
| "es_cero (Flotante NaN) = False"

fun es_positivo :: "numero \<Rightarrow> bool" where
  "es_positivo (Entero n) = (0 < n)"
| "es_positivo (Flotante (Finito s u)) = (0 < unidades s u)"
| "es_positivo (Flotante (Infinito s)) = (\<not> s)"
| "es_positivo (Flotante NaN) = False"

fun le_cero :: "numero \<Rightarrow> bool" where
  "le_cero (Entero n) = (n \<le> 0)"
| "le_cero (Flotante (Finito s u)) = (unidades s u \<le> 0)"
| "le_cero (Flotante (Infinito s)) = s"
| "le_cero (Flotante NaN) = False"

text \<open>The float \<open>m * 2^e\<close>, for an exponent \<open>e\<close> from \<open>-1074\<close> on.\<close>

definition flotante :: "nat \<Rightarrow> int \<Rightarrow> pyfloat" where
  "flotante m e = Finito False (m * 2 ^ nat (e + 1074))"

section \<open>Data model\<close>

text \<open>
  The class \<open>Producto\<close> of the source has five fields.  Python's unbounded integers
  are \<open>int\<close>, the price is a \<open>float\<close>.  Neither invariant of the data model (rating
  in 1 to 5, price not negative) is built into the type: the loader checks neither,
  and \<open>float()\<close> accepts the texts of the infinities and of not-a-number.  The field
  \<open>id\<close> is written \<open>id'\<close>, since \<open>id\<close> is the identity function of HOL.
\<close>

record Producto =
  id' :: int
  nombre :: string
  precio :: pyfloat
  calificacion :: int
  stock :: int

section \<open>Comparator\<close>

text \<open>
  \<open>comparar_productos\<close> returns a number whose sign is the verdict: the difference of
  the ratings (an integer) when they differ, else the difference of the prices (a
  float) when they differ, else the integer \<open>0\<close>.
\<close>

definition comparar_productos :: "Producto \<Rightarrow> Producto \<Rightarrow> numero" where
  "comparar_productos a b =
     (if calificacion a \<noteq> calificacion b then Entero (calificacion b - calificacion a)
      else if \<not> igual (precio a) (precio b) then Flotante (restar (precio a) (precio b))
      else Entero 0)"

section \<open>Merge engine\<close>

text \<open>
  The \<open>while\<close> loop of \<open>mezclar\<close>, with its two cursors \<open>i\<close>, \<open>j\<close> and the list
  \<open>resultado\<close> it appends to.  It returns the three when the loop condition fails.
\<close>

function mezclar_loop ::
  "Producto list \<Rightarrow> Producto list \<Rightarrow> nat \<Rightarrow> nat \<Rightarrow> Producto list
     \<Rightarrow> nat \<times> nat \<times> Producto list" where
  "mezclar_loop izquierda derecha i j resultado =
     (if i < length izquierda \<and> j < length derecha then
        (if le_cero (comparar_productos (izquierda ! i) (derecha ! j))
         then mezclar_loop izquierda derecha (i + 1) j (resultado @ [izquierda ! i])
         else mezclar_loop izquierda derecha i (j + 1) (resultado @ [derecha ! j]))
      else (i, j, resultado))"
  by pat_completeness auto
termination
  by (relation "measure (\<lambda>(izquierda, derecha, i, j, resultado).
        (length izquierda - i) + (length derecha - j))") auto

declare mezclar_loop.simps [simp del]

definition mezclar :: "Producto list \<Rightarrow> Producto list \<Rightarrow> Producto list" where
  "mezclar izquierda derecha =
     (case mezclar_loop izquierda derecha 0 0 [] of
        (i, j, resultado) \<Rightarrow> resultado @ drop i izquierda @ drop j derecha)"

function merge_sort :: "Producto list \<Rightarrow> Producto list" where
  "merge_sort productos =
     (if length productos \<le> 1 then productos
      else
        let medio = length productos div 2;
            izquierda = take medio productos;
            derecha = drop medio productos;
            izquierda_ordenada = merge_sort izquierda;
            derecha_ordenada = merge_sort derecha
        in mezclar izquierda_ordenada derecha_ordenada)"
  by pat_completeness auto
termination
  by (relation "measure length") auto

declare merge_sort.simps [simp del]


text \<open>
  The scenario of the specification: four products, given as
  (id, nombre, precio, calificacion, stock).
\<close>

definition escenario :: "Producto list" where
  "escenario =
     [\<lparr>id' = 1, nombre = ''A'', precio = flotante 10 0, calificacion = 3, stock = 5\<rparr>,
      \<lparr>id' = 2, nombre = ''B'', precio = flotante 5 0, calificacion = 5, stock = 2\<rparr>,
      \<lparr>id' = 3, nombre = ''C'', precio = flotante 20 0, calificacion = 5, stock = 1\<rparr>,
      \<lparr>id' = 4, nombre = ''D'', precio = flotante 8 0, calificacion = 3, stock = 9\<rparr>]"

text \<open>
  The floats 0.5, 1.0 and 2.0, and products of rating 5 for the examples with a
  price that is not a number.
\<close>

definition un_medio :: pyfloat where
  "un_medio = flotante 1 (- 1)"

definition uno :: pyfloat where
  "uno = flotante 1 0"

definition dos :: pyfloat where
  "dos = flotante 2 0"

definition item5 :: "int \<Rightarrow> pyfloat \<Rightarrow> Producto" where
  "item5 i p = \<lparr>id' = i, nombre = [], precio = p, calificacion = 5, stock = 0\<rparr>"

definition lista_nan :: "Producto list" where
  "lista_nan = [item5 1 uno, item5 2 NaN, item5 3 un_medio]"

definition lista_nan_iguales :: "Producto list" where
  "lista_nan_iguales = [item5 1 uno, item5 2 NaN, item5 3 uno, item5 4 dos]"

section \<open>Exceptions and console output\<close>

text \<open>
  The exceptions that the functions below can raise, and the lines they print.  A
  printed line is kept as a value that names the \<open>print\<close> call and carries the numbers
  and strings it formats; the layout of the text is not modelled, and the percentage
  of a histogram line is kept as the exact quotient.  A function that prints and may
  raise returns the lines printed so far and the exception, if any.
\<close>

datatype pyerror = KeyError | ZeroDivisionError | IndexError | ValueError

datatype salida =
    Regla nat
  | Titulo_analisis
  | Linea_calificacion int nat real
  | Cinco_estrellas nat
  | Mas_barato string pyfloat
  | Leidos nat string
  | Archivo_no_existe string
  | Titulo_sistema
  | Paso_leer
  | Saliendo
  | Paso_sin_ordenar
  | Linea_producto Producto
  | Paso_ordenar nat
  | Ordenacion_completada
  | Titulo_mejores nat
  | Criterio_mejores
  | Puesto nat Producto
  | Paso_guardar
  | Fichero_escrito string "Producto list"
  | Guardados string
  | Proceso_completado

section \<open>Reporting\<close>

text \<open>
  The dictionary \<open>calificaciones\<close> is an association list in insertion order.  The
  first loop of \<open>analizar_datos\<close> reads the entry of the product's rating, which raises
  \<open>KeyError\<close> when the key is missing, and stores the entry plus one.
\<close>

definition calificaciones_inicial :: "(int \<times> nat) list" where
  "calificaciones_inicial = [(1, 0), (2, 0), (3, 0), (4, 0), (5, 0)]"

fun contar :: "(int \<times> nat) list \<Rightarrow> Producto list \<Rightarrow> pyerror + (int \<times> nat) list" where
  "contar calificaciones [] = Inr calificaciones"
| "contar calificaciones (producto # resto) =
     (case map_of calificaciones (calificacion producto) of
        None \<Rightarrow> Inl KeyError
      | Some cantidad \<Rightarrow>
          contar (AList.update (calificacion producto) (cantidad + 1) calificaciones) resto)"

text \<open>
  The second loop prints one line per entry, with \<open>cantidad / len(productos) * 100\<close>;
  \<open>n\<close> is \<open>len(productos)\<close>, and the division of two integers raises
  \<open>ZeroDivisionError\<close> when \<open>n\<close> is \<open>0\<close>.
\<close>

fun lineas_calificacion ::
  "nat \<Rightarrow> (int \<times> nat) list \<Rightarrow> salida list \<Rightarrow> salida list \<times> pyerror option" where
  "lineas_calificacion n [] impreso = (impreso, None)"
| "lineas_calificacion n ((calif, cantidad) # resto) impreso =
     (if n = 0 then (impreso, Some ZeroDivisionError)
      else lineas_calificacion n resto
             (impreso @ [Linea_calificacion calif cantidad (real cantidad / real n * 100)]))"

text \<open>\<open>min(productos_5_estrellas, key=lambda x: x.precio)\<close>: the first product of least price.\<close>

fun min_precio :: "Producto \<Rightarrow> Producto list \<Rightarrow> Producto" where
  "min_precio m [] = m"
| "min_precio m (p # ps) = min_precio (if menor (precio p) (precio m) then p else m) ps"

definition analizar_datos :: "Producto list \<Rightarrow> salida list \<times> pyerror option" where
  "analizar_datos productos =
     (case contar calificaciones_inicial productos of
        Inl e \<Rightarrow> ([Titulo_analisis, Regla 50], Some e)
      | Inr calificaciones \<Rightarrow>
          (case lineas_calificacion (length productos) (rev (sort calificaciones))
                  [Titulo_analisis, Regla 50] of
             (impreso, Some e) \<Rightarrow> (impreso, Some e)
           | (impreso, None) \<Rightarrow>
               let productos_5_estrellas = filter (\<lambda>p. calificacion p = 5) productos;
                   impreso' = impreso @ [Cinco_estrellas (length productos_5_estrellas)]
               in (case productos_5_estrellas of
                     [] \<Rightarrow> (impreso', None)
                   | p # ps \<Rightarrow>
                       let mas_barato_5 = min_precio p ps
                       in (impreso' @ [Mas_barato (nombre mas_barato_5) (precio mas_barato_5)],
                           None))))"

section \<open>Loader, writer and main\<close>

text \<open>
  A file that exists is the list of its data rows, each row the dictionary that
  \<open>csv.DictReader\<close> yields (column name to text; a row has as many cells as the
  header).  The file system maps a name to the file, if there is one; a file is
  either there and readable or not there.  Python's \<open>int\<close> and \<open>float\<close> on a
  text are the parameters \<open>a_int\<close> and \<open>a_float\<close>; \<open>None\<close> is their \<open>ValueError\<close>.
\<close>

type_synonym fila = "(string \<times> string) list"

definition campo :: "fila \<Rightarrow> string \<Rightarrow> pyerror + string" where
  "campo fila k = (case map_of fila k of None \<Rightarrow> Inl KeyError | Some v \<Rightarrow> Inr v)"

definition convertir :: "(string \<Rightarrow> 'a option) \<Rightarrow> string \<Rightarrow> pyerror + 'a" where
  "convertir f t = (case f t of None \<Rightarrow> Inl ValueError | Some v \<Rightarrow> Inr v)"

text \<open>The rest of a computation runs on the value of a step that did not raise.\<close>

definition entonces :: "pyerror + 'a \<Rightarrow> ('a \<Rightarrow> pyerror + 'b) \<Rightarrow> pyerror + 'b" where
  "entonces r f = (case r of Inl e \<Rightarrow> Inl e | Inr v \<Rightarrow> f v)"

text \<open>The constructor call of one row; the arguments are evaluated left to right.\<close>

definition producto_de_fila ::
  "(string \<Rightarrow> int option) \<Rightarrow> (string \<Rightarrow> pyfloat option) \<Rightarrow> fila \<Rightarrow> pyerror + Producto" where
  "producto_de_fila a_int a_float fila =
     entonces (campo fila ''id'') (\<lambda>t1.
     entonces (convertir a_int t1) (\<lambda>v1.
     entonces (campo fila ''nombre'') (\<lambda>v2.
     entonces (campo fila ''precio'') (\<lambda>t3.
     entonces (convertir a_float t3) (\<lambda>v3.
     entonces (campo fila ''calificacion'') (\<lambda>t4.
     entonces (convertir a_int t4) (\<lambda>v4.
     entonces (campo fila ''stock'') (\<lambda>t5.
     entonces (convertir a_int t5) (\<lambda>v5.
       Inr \<lparr>id' = v1, nombre = v2, precio = v3, calificacion = v4, stock = v5\<rparr>)))))))))"

fun leer_filas ::
  "(string \<Rightarrow> int option) \<Rightarrow> (string \<Rightarrow> pyfloat option) \<Rightarrow> fila list \<Rightarrow> Producto list
     \<Rightarrow> pyerror + Producto list" where
  "leer_filas a_int a_float [] productos = Inr productos"
| "leer_filas a_int a_float (fila # resto) productos =
     (case producto_de_fila a_int a_float fila of
        Inl e \<Rightarrow> Inl e
      | Inr producto \<Rightarrow> leer_filas a_int a_float resto (productos @ [producto]))"

text \<open>
  \<open>leer_csv\<close> catches \<open>FileNotFoundError\<close> only: it prints the error line and returns
  the list it has, which is empty.  Any other exception leaves the function.
\<close>

definition leer_csv ::
  "(string \<Rightarrow> int option) \<Rightarrow> (string \<Rightarrow> pyfloat option) \<Rightarrow> (string \<rightharpoonup> fila list) \<Rightarrow> string
     \<Rightarrow> salida list \<times> (pyerror + Producto list)" where
  "leer_csv a_int a_float archivos nombre_archivo =
     (case archivos nombre_archivo of
        None \<Rightarrow> ([Archivo_no_existe nombre_archivo], Inr [])
      | Some filas \<Rightarrow>
          (case leer_filas a_int a_float filas [] of
             Inl e \<Rightarrow> ([], Inl e)
           | Inr productos \<Rightarrow> ([Leidos (length productos) nombre_archivo], Inr productos)))"

text \<open>\<open>for i in range(5): print(productos[i])\<close>, from \<open>i\<close> on: an index out of range raises.\<close>

function primeros_cinco :: "Producto list \<Rightarrow> nat \<Rightarrow> salida list \<Rightarrow> salida list \<times> pyerror option" where
  "primeros_cinco productos i impreso =
     (if i < 5 then
        (if i < length productos
         then primeros_cinco productos (i + 1) (impreso @ [Linea_producto (productos ! i)])
         else (impreso, Some IndexError))
      else (impreso, None))"
  by pat_completeness auto
termination
  by (relation "measure (\<lambda>(productos, i, impreso). 5 - i)") auto

declare primeros_cinco.simps [simp del]

text \<open>\<open>enumerate(productos[:n], 1)\<close>: the first \<open>n\<close> products with their ranks from 1.\<close>

definition mostrar_mejores_productos :: "Producto list \<Rightarrow> nat \<Rightarrow> salida list" where
  "mostrar_mejores_productos productos n =
     [Titulo_mejores n, Regla 90, Criterio_mejores, Regla 90]
     @ map (\<lambda>(i, producto). Puesto i producto) (zip [1 ..< Suc (length (take n productos))] (take n productos))"

text \<open>The writer: the file written, with its rows in order, is part of the output.\<close>

definition guardar_resultados :: "Producto list \<Rightarrow> string \<Rightarrow> salida list" where
  "guardar_resultados productos nombre_archivo =
     [Fichero_escrito nombre_archivo productos, Guardados nombre_archivo]"

definition main ::
  "(string \<Rightarrow> int option) \<Rightarrow> (string \<Rightarrow> pyfloat option) \<Rightarrow> (string \<rightharpoonup> fila list)
     \<Rightarrow> salida list \<times> pyerror option" where
  "main a_int a_float archivos =
     (let impreso0 = [Titulo_sistema, Regla 60, Paso_leer] in
      case leer_csv a_int a_float archivos ''productos.csv'' of
        (impreso1, Inl e) \<Rightarrow> (impreso0 @ impreso1, Some e)
      | (impreso1, Inr productos) \<Rightarrow>
          if productos = [] then (impreso0 @ impreso1 @ [Saliendo], None)
          else
            (case primeros_cinco productos 0
                    (impreso0 @ impreso1 @ [Paso_sin_ordenar, Regla 80]) of
               (impreso2, Some e) \<Rightarrow> (impreso2, Some e)
             | (impreso2, None) \<Rightarrow>
                 (case analizar_datos productos of
                    (impreso3, Some e) \<Rightarrow> (impreso2 @ impreso3, Some e)
                  | (impreso3, None) \<Rightarrow>
                      let productos_ordenados = merge_sort productos
                      in (impreso2 @ impreso3
                            @ [Paso_ordenar (length productos), Ordenacion_completada]
                            @ mostrar_mejores_productos productos_ordenados 25
                            @ [Paso_guardar]
                            @ guardar_resultados productos_ordenados ''productos_ordenados.csv''
                            @ [Proceso_completado],
                          None))))"


section \<open>The store: list objects and product objects\<close>

text \<open>
  To speak about mutation, the objects are put in a store.  A reference is an index:
  \<open>objetos\<close> holds the \<open>Producto\<close> objects with their fields, \<open>listas\<close> the list objects,
  each the sequence of the references to its elements.  A new list object is added at
  the end, so its reference is new; \<open>append\<close> and \<open>extend\<close> write to the list object
  they are called on.  No function below assigns to a field of a product, so none
  writes to \<open>objetos\<close>.
\<close>

record almacen =
  objetos :: "Producto list"
  listas :: "nat list list"

definition nueva_lista :: "nat list \<Rightarrow> almacen \<Rightarrow> nat \<times> almacen" where
  "nueva_lista contenido s = (length (listas s), s\<lparr>listas := listas s @ [contenido]\<rparr>)"

definition append_st :: "nat \<Rightarrow> nat \<Rightarrow> almacen \<Rightarrow> almacen" where
  "append_st l x s = s\<lparr>listas := (listas s)[l := listas s ! l @ [x]]\<rparr>"

definition extend_st :: "nat \<Rightarrow> nat list \<Rightarrow> almacen \<Rightarrow> almacen" where
  "extend_st l xs s = s\<lparr>listas := (listas s)[l := listas s ! l @ xs]\<rparr>"

definition elemento :: "almacen \<Rightarrow> nat \<Rightarrow> nat \<Rightarrow> nat" where
  "elemento s l i = listas s ! l ! i"

definition objeto :: "almacen \<Rightarrow> nat \<Rightarrow> Producto" where
  "objeto s r = objetos s ! r"

text \<open>
  \<open>mezclar\<close> and \<open>merge_sort\<close> on the store.  The loop reads both lists from the store
  at every turn and appends to the list object \<open>resultado\<close>; the slices that
  \<open>extend\<close> reads are values, the slices of \<open>merge_sort\<close> are list objects of their
  own.  A loop or a recursion that did not end would be \<open>None\<close>.
\<close>

partial_function (option) mezclar_loop_st ::
  "nat \<Rightarrow> nat \<Rightarrow> nat \<Rightarrow> nat \<Rightarrow> nat \<Rightarrow> almacen \<Rightarrow> (nat \<times> nat \<times> almacen) option" where
  "mezclar_loop_st izquierda derecha i j resultado s =
     (if i < length (listas s ! izquierda) \<and> j < length (listas s ! derecha) then
        (if le_cero (comparar_productos (objeto s (elemento s izquierda i))
                                        (objeto s (elemento s derecha j)))
         then mezclar_loop_st izquierda derecha (i + 1) j resultado
                (append_st resultado (elemento s izquierda i) s)
         else mezclar_loop_st izquierda derecha i (j + 1) resultado
                (append_st resultado (elemento s derecha j) s))
      else Some (i, j, s))"

declare mezclar_loop_st.simps [code]

definition mezclar_st :: "nat \<Rightarrow> nat \<Rightarrow> almacen \<Rightarrow> (nat \<times> almacen) option" where
  "mezclar_st izquierda derecha s =
     (case nueva_lista [] s of (resultado, s1) \<Rightarrow>
        (case mezclar_loop_st izquierda derecha 0 0 resultado s1 of
           None \<Rightarrow> None
         | Some (i, j, s2) \<Rightarrow>
             let s3 = extend_st resultado (drop i (listas s2 ! izquierda)) s2;
                 s4 = extend_st resultado (drop j (listas s3 ! derecha)) s3
             in Some (resultado, s4)))"

partial_function (option) merge_sort_st :: "nat \<Rightarrow> almacen \<Rightarrow> (nat \<times> almacen) option" where
  "merge_sort_st productos s =
     (if length (listas s ! productos) \<le> 1 then Some (productos, s)
      else
        let medio = length (listas s ! productos) div 2 in
        case nueva_lista (take medio (listas s ! productos)) s of (izquierda, s1) \<Rightarrow>
        case nueva_lista (drop medio (listas s1 ! productos)) s1 of (derecha, s2) \<Rightarrow>
          Option.bind (merge_sort_st izquierda s2) (\<lambda>(izquierda_ordenada, s3).
          Option.bind (merge_sort_st derecha s3) (\<lambda>(derecha_ordenada, s4).
            mezclar_st izquierda_ordenada derecha_ordenada s4)))"


declare merge_sort_st.simps [code]

text \<open>The products that a list object holds, by value.\<close>

definition valores :: "almacen \<Rightarrow> nat \<Rightarrow> Producto list" where
  "valores s l = map (objeto s) (listas s ! l)"

text \<open>
  \<open>analizar_datos\<close> on the store reads the list and the fields of its products.  Its
  dictionary is a local value; the list \<open>productos_5_estrellas\<close> is a new list
  object, made once the two loops have ended without an exception.
\<close>

definition analizar_datos_st ::
  "nat \<Rightarrow> almacen \<Rightarrow> (salida list \<times> pyerror option) \<times> almacen" where
  "analizar_datos_st productos s =
     (case analizar_datos (valores s productos) of
        (impreso, Some e) \<Rightarrow> ((impreso, Some e), s)
      | (impreso, None) \<Rightarrow>
          (case nueva_lista (filter (\<lambda>r. calificacion (objeto s r) = 5) (listas s ! productos)) s of
             (productos_5_estrellas, s1) \<Rightarrow> ((impreso, None), s1)))"


text \<open>A store with the four products of the scenario and one list of them.\<close>

definition almacen_escenario :: almacen where
  "almacen_escenario = \<lparr>objetos = escenario, listas = [[0, 1, 2, 3]]\<rparr>"

section \<open>Proof devices\<close>

text \<open>
  The test of the merge step, \<open>comparar_productos x y <= 0\<close>, as a relation; the merge
  of two lists by recursion on the lists; and the place of a float in the order of
  the floats that are numbers.  None is in the source: the loop of \<open>mezclar\<close> is
  shown to compute the recursive merge (\<open>mezclar_mezcla_rec\<close>), and the inductions
  run over it.
\<close>

abbreviation (input) antes_o_igual :: "Producto \<Rightarrow> Producto \<Rightarrow> bool" where
  "antes_o_igual \<equiv> (\<lambda>x y. le_cero (comparar_productos x y))"

fun mezcla_rec :: "Producto list \<Rightarrow> Producto list \<Rightarrow> Producto list" where
  "mezcla_rec [] ys = ys"
| "mezcla_rec xs [] = xs"
| "mezcla_rec (x # xs) (y # ys) =
     (if le_cero (comparar_productos x y) then x # mezcla_rec xs (y # ys)
      else y # mezcla_rec (x # xs) ys)"

fun rango :: "pyfloat \<Rightarrow> int \<times> int" where
  "rango (Finito s u) = (0, unidades s u)"
| "rango (Infinito s) = (if s then (- 1, 0) else (1, 0))"
| "rango NaN = (2, 0)"

section \<open>Rounding keeps the sign\<close>

lemma bits_bounds: "0 < n \<Longrightarrow> 2 ^ (bits n - 1) \<le> n \<and> n < 2 ^ bits n"
proof (induction n rule: bits.induct)
  case (1 n)
  show ?case
  proof (cases "n div 2 = 0")
    case True
    then have n1: "n = 1" using "1.prems" by linarith
    have "bits 0 = 0" by (subst bits.simps) simp
    then have "bits 1 = 1" by (subst bits.simps) simp
    then show ?thesis unfolding n1 by simp
  next
    case False
    then have ih: "2 ^ (bits (n div 2) - 1) \<le> n div 2 \<and> n div 2 < 2 ^ bits (n div 2)"
      using "1.IH" "1.prems" by simp
    have pos: "0 < bits (n div 2)"
      using False by (subst bits.simps) simp
    have b: "bits n = Suc (bits (n div 2))"
      using "1.prems" by (subst bits.simps) simp
    have "(2::nat) ^ (bits n - 1) = 2 * 2 ^ (bits (n div 2) - 1)"
      using pos unfolding b by (cases "bits (n div 2)") simp_all
    then have lo: "2 ^ (bits n - 1) \<le> n"
      using ih by linarith
    have "n < 2 * 2 ^ bits (n div 2)"
      using ih by linarith
    then have hi: "n < 2 ^ bits n"
      unfolding b by simp
    show ?thesis using lo hi by simp
  qed
qed

lemma mitad_par_bounds: "n div 2 ^ d \<le> mitad_par n d \<and> mitad_par n d \<le> n div 2 ^ d + 1"
  by (simp add: mitad_par_def Let_def)

lemma mitad_par_0: "mitad_par n 0 = n"
  by (simp add: mitad_par_def)


lemma mitad_par_rango:
  assumes "0 < u"
  shows "0 < mitad_par u (bits u - 53) \<and> mitad_par u (bits u - 53) \<le> 2 ^ 53"
proof (cases "bits u \<le> 53")
  case True
  have "u < 2 ^ bits u" using bits_bounds [OF assms] by simp
  also have "(2::nat) ^ bits u \<le> 2 ^ 53" using True by (rule power_increasing) simp
  finally show ?thesis using True assms by (simp add: mitad_par_0)
next
  case False
  define d where "d = bits u - 53"
  have k: "bits u = d + 53" "bits u - 1 = d + 52"
    using False by (simp_all add: d_def)
  have lo: "2 ^ 52 * 2 ^ d \<le> u"
    using bits_bounds [OF assms] unfolding k by (simp add: power_add mult.commute)
  have hi: "u < 2 ^ 53 * 2 ^ d"
    using bits_bounds [OF assms] unfolding k by (simp add: power_add mult.commute)
  have "2 ^ 52 \<le> u div 2 ^ d"
    using lo by (simp add: less_eq_div_iff_mult_less_eq)
  moreover have "u div 2 ^ d < 2 ^ 53"
    using hi by (simp add: less_mult_imp_div_less)
  moreover have "(0::nat) < 2 ^ 52" by simp
  ultimately have "0 < mitad_par u d \<and> mitad_par u d \<le> 2 ^ 53"
    using mitad_par_bounds [of u d] by linarith
  then show ?thesis unfolding d_def .
qed

lemma redondear_forma:
  assumes "0 < u"
  shows "redondear s u = Infinito s \<or> (\<exists>v. redondear s u = Finito s v \<and> 0 < v)"
proof -
  let ?d = "bits u - 53"
  let ?v = "mitad_par u ?d * 2 ^ ?d"
  have "0 < ?v"
    using mitad_par_rango [OF assms] by simp
  then show ?thesis
    by (cases "2 ^ 2098 \<le> ?v") (simp_all add: redondear_def Let_def)
qed

lemma signo_redondear:
  assumes "0 < u"
  shows "es_negativo (Flotante (redondear s u)) = s"
    and "es_positivo (Flotante (redondear s u)) = (\<not> s)"
    and "\<not> es_cero (Flotante (redondear s u))"
    and "le_cero (Flotante (redondear s u)) = s"
proof -
  have "es_negativo (Flotante (redondear s u)) = s
      \<and> es_positivo (Flotante (redondear s u)) = (\<not> s)
      \<and> \<not> es_cero (Flotante (redondear s u))
      \<and> le_cero (Flotante (redondear s u)) = s"
  proof (rule disjE [OF redondear_forma [OF assms, of s]])
    assume "redondear s u = Infinito s"
    then show ?thesis by simp
  next
    assume "\<exists>v. redondear s u = Finito s v \<and> 0 < v"
    then obtain v where f: "redondear s u = Finito s v" and v: "0 < v"
      by blast
    show ?thesis
      unfolding f using v by (cases s) (simp_all add: unidades_def)
  qed
  then show "es_negativo (Flotante (redondear s u)) = s"
    and "es_positivo (Flotante (redondear s u)) = (\<not> s)"
    and "\<not> es_cero (Flotante (redondear s u))"
    and "le_cero (Flotante (redondear s u)) = s"
    by simp_all
qed

section \<open>Rounding returns a binary64, and leaves a binary64 as it is\<close>

lemma bits_doble: "0 < n \<Longrightarrow> bits (2 * n) = Suc (bits n)"
  by (subst bits.simps) simp

lemma bits_mult_pow: "0 < n \<Longrightarrow> bits (n * 2 ^ k) = bits n + k"
proof (induction k)
  case 0
  then show ?case by simp
next
  case (Suc k)
  have "bits (n * 2 ^ Suc k) = bits (2 * (n * 2 ^ k))"
    by (simp add: mult.commute mult.left_commute)
  also have "\<dots> = Suc (bits (n * 2 ^ k))"
    using Suc.prems by (intro bits_doble) simp
  finally show ?case using Suc by simp
qed

lemma bits_eqI:
  assumes "2 ^ k \<le> n" "n < 2 ^ Suc k"
  shows "bits n = Suc k"
proof -
  have pos: "0 < n"
    using assms(1) by (metis less_le_trans zero_less_numeral zero_less_power)
  have b: "2 ^ (bits n - 1) \<le> n" "n < 2 ^ bits n"
    using bits_bounds [OF pos] by simp_all
  have "(2::nat) ^ k < 2 ^ bits n"
    using assms(1) b(2) by (rule le_less_trans)
  then have 1: "k < bits n"
    by (simp add: power_strict_increasing_iff)
  have "(2::nat) ^ (bits n - 1) < 2 ^ Suc k"
    using b(1) assms(2) by (rule le_less_trans)
  then have 2: "bits n - 1 < Suc k"
    by (simp only: power_strict_increasing_iff rel_simps)
  show ?thesis using 1 2 by linarith
qed

lemma mitad_par_normal:
  assumes "53 < bits u"
  shows "2 ^ 52 \<le> mitad_par u (bits u - 53) \<and> mitad_par u (bits u - 53) \<le> 2 ^ 53"
proof -
  have pos: "0 < u"
    using assms by (cases "u = 0") (simp_all add: bits.simps [of 0])
  define d where "d = bits u - 53"
  have k: "bits u = d + 53" "bits u - 1 = d + 52"
    using assms by (simp_all add: d_def)
  have lo: "2 ^ 52 * 2 ^ d \<le> u"
    using bits_bounds [OF pos] unfolding k by (simp add: power_add mult.commute)
  have hi: "u < 2 ^ 53 * 2 ^ d"
    using bits_bounds [OF pos] unfolding k by (simp add: power_add mult.commute)
  have "2 ^ 52 \<le> u div 2 ^ d"
    using lo by (simp add: less_eq_div_iff_mult_less_eq)
  moreover have "u div 2 ^ d < 2 ^ 53"
    using hi by (simp add: less_mult_imp_div_less)
  ultimately have "2 ^ 52 \<le> mitad_par u d \<and> mitad_par u d \<le> 2 ^ 53"
    using mitad_par_bounds [of u d] by linarith
  then show ?thesis unfolding d_def .
qed

lemma redondear_binary64: "es_binary64 (redondear s u)"
proof (cases "53 < bits u")
  case False
  then have d: "bits u - 53 = 0" by simp
  have v: "mitad_par u (bits u - 53) * 2 ^ (bits u - 53) = u"
    unfolding d by (simp add: mitad_par_0)
  show ?thesis
    unfolding redondear_def Let_def v by (simp add: es_binary64_def d)
next
  case True
  define d where "d = bits u - 53"
  define q where "q = mitad_par u d"
  have r: "2 ^ 52 \<le> q" "q \<le> 2 ^ 53"
    using mitad_par_normal [OF True] by (simp_all add: q_def d_def)
  have qpos: "0 < q"
    using r(1) by (metis less_le_trans zero_less_numeral zero_less_power)
  have m: "(q * 2 ^ d) mod 2 ^ (bits (q * 2 ^ d) - 53) = 0"
  proof (cases "q = 2 ^ 53")
    case True
    have "bits q = Suc 53"
      unfolding True by (rule bits_eqI) simp_all
    then have "bits (q * 2 ^ d) - 53 = Suc d"
      using bits_mult_pow [OF qpos, of d] by simp
    moreover have "q * 2 ^ d = 2 ^ 52 * 2 ^ Suc d"
      unfolding True by simp
    ultimately show ?thesis by simp
  next
    case False
    then have "q < 2 ^ Suc 52" using r(2) by simp
    then have "bits q = Suc 52"
      using r(1) by (intro bits_eqI) simp_all
    then have "bits (q * 2 ^ d) - 53 = d"
      using bits_mult_pow [OF qpos, of d] by simp
    then show ?thesis by simp
  qed
  show ?thesis
    unfolding redondear_def Let_def
    using m by (simp add: es_binary64_def q_def [symmetric] d_def [symmetric])
qed

lemma redondear_exacto: "es_binary64 (Finito s u) \<Longrightarrow> redondear s u = Finito s u"
proof -
  assume b: "es_binary64 (Finito s u)"
  let ?d = "bits u - 53"
  have lt: "u < 2 ^ 2098" and m: "u mod 2 ^ ?d = 0"
    using b by (simp_all add: es_binary64_def)
  have "mitad_par u ?d = u div 2 ^ ?d"
    using m by (simp add: mitad_par_def Let_def)
  then have "mitad_par u ?d * 2 ^ ?d = u"
    using m by (simp add: mod_eq_0_iff_dvd)
  then show ?thesis
    using lt by (simp add: redondear_def Let_def)
qed

lemma restar_binary64: "es_binary64 (restar a b)"
  by (cases a; cases b) (simp_all add: Let_def redondear_binary64, simp_all add: es_binary64_def)

lemma flotante_binary64:
  assumes "m < 2 ^ 53" "- 1074 \<le> e" "e \<le> 971"
  shows "es_binary64 (flotante m e)"
proof (cases "m = 0")
  case True
  have "bits 0 = 0" by (subst bits.simps) simp
  then show ?thesis using True by (simp add: flotante_def es_binary64_def)
next
  case False
  then have pos: "0 < m" by simp
  define k where "k = nat (e + 1074)"
  have k: "k \<le> 2045" using assms(2,3) by (simp add: k_def)
  have "(2::nat) ^ (bits m - 1) < 2 ^ 53"
    using bits_bounds [OF pos] assms(1) by linarith
  then have bm: "bits m - 1 < 53"
    by (simp only: power_strict_increasing_iff rel_simps)
  have b: "bits (m * 2 ^ k) = bits m + k"
    by (rule bits_mult_pow [OF pos])
  have "bits (m * 2 ^ k) - 53 \<le> k"
    unfolding b using bm by linarith
  then have "(2::nat) ^ (bits (m * 2 ^ k) - 53) dvd 2 ^ k"
    by (rule le_imp_power_dvd)
  then have d: "m * 2 ^ k mod 2 ^ (bits (m * 2 ^ k) - 53) = 0"
    by (simp add: mod_eq_0_iff_dvd)
  have "(2::nat) ^ k \<le> 2 ^ 2045"
    using k by (rule power_increasing) simp
  then have "(2::nat) ^ 53 * 2 ^ k \<le> 2 ^ 53 * 2 ^ 2045"
    by (rule mult_le_mono2)
  moreover have "m * 2 ^ k < 2 ^ 53 * 2 ^ k"
    using assms(1) by simp
  moreover have "(2::nat) ^ 53 * 2 ^ 2045 = 2 ^ 2098"
    by (simp only: power_add [symmetric]) simp
  ultimately have lt: "m * 2 ^ k < 2 ^ 2098"
    by linarith
  show ?thesis
    using d lt by (simp add: flotante_def es_binary64_def k_def)
qed

section \<open>The order of the floats that are numbers\<close>

lemma menor_rango: "a \<noteq> NaN \<Longrightarrow> b \<noteq> NaN \<Longrightarrow> menor a b \<longleftrightarrow> rango a < rango b"
  by (cases a; cases b) (auto simp: less_prod_def)

lemma igual_rango: "a \<noteq> NaN \<Longrightarrow> b \<noteq> NaN \<Longrightarrow> igual a b \<longleftrightarrow> rango a = rango b"
  by (cases a; cases b) auto

lemma igual_NaN: "\<not> igual NaN b" "\<not> igual a NaN"
  by (cases b; simp) (cases a; simp)

lemma menor_NaN: "\<not> menor NaN b" "\<not> menor a NaN"
  by (cases b; simp) (cases a; simp)

lemma restar_NaN: "restar NaN b = NaN" "restar a NaN = NaN"
  by (cases b; simp) (cases a; simp)

lemma signo_restar:
  assumes "a \<noteq> NaN" "b \<noteq> NaN" "\<not> igual a b"
  shows "es_negativo (Flotante (restar a b)) = menor a b"
    and "es_positivo (Flotante (restar a b)) = menor b a"
    and "\<not> es_cero (Flotante (restar a b))"
    and "le_cero (Flotante (restar a b)) = menor a b"
proof -
  have "es_negativo (Flotante (restar a b)) = menor a b
      \<and> es_positivo (Flotante (restar a b)) = menor b a
      \<and> \<not> es_cero (Flotante (restar a b))
      \<and> le_cero (Flotante (restar a b)) = menor a b"
  proof (cases a)
    case fa: (Finito s u)
    show ?thesis
    proof (cases b)
      case fb: (Finito t v)
      let ?d = "unidades s u - unidades t v"
      have d: "?d \<noteq> 0" using assms(3) fa fb by simp
      then have p: "0 < nat \<bar>?d\<bar>" by simp
      have r: "restar a b = redondear (?d < 0) (nat \<bar>?d\<bar>)"
        using d fa fb by (simp add: Let_def)
      show ?thesis
        unfolding r using signo_redondear [OF p, of "?d < 0"] d fa fb
        by auto
    next
      case (Infinito t)
      then show ?thesis using fa by simp
    next
      case NaN
      then show ?thesis using assms(2) by simp
    qed
  next
    case (Infinito s)
    then show ?thesis using assms(2,3) by (cases b) auto
  next
    case NaN
    then show ?thesis using assms(1) by simp
  qed
  then show "es_negativo (Flotante (restar a b)) = menor a b"
    and "es_positivo (Flotante (restar a b)) = menor b a"
    and "\<not> es_cero (Flotante (restar a b))"
    and "le_cero (Flotante (restar a b)) = menor a b"
    by simp_all
qed

lemma rango_flotante: "rango (flotante m e) = (0, int m * 2 ^ nat (e + 1074))"
  by (simp add: flotante_def unidades_def)

lemma flotante_no_NaN: "flotante m e \<noteq> NaN"
  by (simp add: flotante_def)

section \<open>The comparator: a total preorder where no price is not-a-number\<close>

lemma lex_trans:
  fixes ca cb cc :: int and ra rb rc :: "'r::order"
  assumes "cb < ca \<or> (ca = cb \<and> na \<and> nb \<and> ra \<le> rb)"
    and "cc < cb \<or> (cb = cc \<and> nb \<and> nc \<and> rb \<le> rc)"
  shows "cc < ca \<or> (ca = cc \<and> na \<and> nc \<and> ra \<le> rc)"
proof (cases "cb < ca")
  case True
  then show ?thesis using assms(2) by (cases "cc < cb") simp_all
next
  case False
  then have ab: "ca = cb" "na" "nb" "ra \<le> rb" using assms(1) by simp_all
  show ?thesis
  proof (cases "cc < cb")
    case True
    then show ?thesis using ab(1) by simp
  next
    case False
    then have bc: "cb = cc" "nc" "rb \<le> rc" using assms(2) by simp_all
    have "ra \<le> rc" using ab(4) bc(3) by (rule order_trans)
    then show ?thesis using ab bc by simp
  qed
qed

lemma lex_total:
  fixes ca cb :: int and ra rb :: "'r::linorder"
  shows "(cb < ca \<or> (ca = cb \<and> ra \<le> rb)) \<or> (ca < cb \<or> (cb = ca \<and> rb \<le> ra))"
proof (cases "ca = cb")
  case True
  then show ?thesis using linorder_le_cases [of ra rb] by blast
next
  case False
  then show ?thesis by linarith
qed

lemma comparar_le_cero_iff:
  "le_cero (comparar_productos a b) \<longleftrightarrow>
     calificacion b < calificacion a
     \<or> (calificacion a = calificacion b \<and> precio a \<noteq> NaN \<and> precio b \<noteq> NaN
          \<and> rango (precio a) \<le> rango (precio b))"
proof (cases "calificacion a = calificacion b")
  case False
  then have "le_cero (comparar_productos a b) = (calificacion b < calificacion a)"
    by (simp add: comparar_productos_def) linarith
  then show ?thesis using False by blast
next
  case cal: True
  then have nlt: "\<not> calificacion b < calificacion a"
    by simp
  show ?thesis
  proof (cases "precio a = NaN \<or> precio b = NaN")
    case True
    then have "\<not> igual (precio a) (precio b)" and "restar (precio a) (precio b) = NaN"
      using igual_NaN restar_NaN by auto
    then have "\<not> le_cero (comparar_productos a b)"
      using cal by (simp add: comparar_productos_def)
    then show ?thesis using True nlt by blast
  next
    case False
    then have na: "precio a \<noteq> NaN" and nb: "precio b \<noteq> NaN" by simp_all
    show ?thesis
    proof (cases "igual (precio a) (precio b)")
      case True
      then have "rango (precio a) = rango (precio b)"
        using igual_rango [OF na nb] by simp
      then have "rango (precio a) \<le> rango (precio b)"
        by (simp only: order_refl)
      moreover have "le_cero (comparar_productos a b)"
        using cal True by (simp add: comparar_productos_def)
      ultimately show ?thesis using cal na nb nlt by blast
    next
      case False
      then have ne: "rango (precio a) \<noteq> rango (precio b)"
        using igual_rango [OF na nb] by simp
      have "le_cero (comparar_productos a b) = menor (precio a) (precio b)"
        using cal False signo_restar(4) [OF na nb False] by (simp add: comparar_productos_def)
      also have "\<dots> = (rango (precio a) < rango (precio b))"
        by (rule menor_rango [OF na nb])
      also have "\<dots> = (rango (precio a) \<le> rango (precio b))"
        using ne by (metis less_le)
      finally show ?thesis using cal na nb nlt by blast
    qed
  qed
qed

lemma comparar_refl: "precio a \<noteq> NaN \<Longrightarrow> le_cero (comparar_productos a a)"
  unfolding comparar_le_cero_iff by (simp only: order_refl simp_thms)

lemma comparar_trans:
  "le_cero (comparar_productos a b) \<Longrightarrow> le_cero (comparar_productos b c)
     \<Longrightarrow> le_cero (comparar_productos a c)"
  unfolding comparar_le_cero_iff by (rule lex_trans)

lemma comparar_total:
  assumes "precio a \<noteq> NaN" "precio b \<noteq> NaN"
  shows "le_cero (comparar_productos a b) \<or> le_cero (comparar_productos b a)"
  unfolding comparar_le_cero_iff
  using assms lex_total [of "calificacion b" "calificacion a" "rango (precio a)" "rango (precio b)"]
  by blast

lemma comparar_gt_trans:
  assumes "precio x \<noteq> NaN" "precio y \<noteq> NaN"
    and "\<not> le_cero (comparar_productos x y)" "le_cero (comparar_productos x z)"
  shows "calificacion z \<noteq> calificacion y \<or> \<not> igual (precio z) (precio y)"
proof (rule ccontr)
  assume "\<not> (calificacion z \<noteq> calificacion y \<or> \<not> igual (precio z) (precio y))"
  then have c: "calificacion z = calificacion y" and i: "igual (precio z) (precio y)"
    by simp_all
  have nz: "precio z \<noteq> NaN"
    using i igual_NaN(1) by metis
  have r: "rango (precio z) = rango (precio y)"
    using i igual_rango [OF nz assms(2)] by simp
  have xz: "calificacion z < calificacion x
     \<or> (calificacion x = calificacion z \<and> precio x \<noteq> NaN \<and> precio z \<noteq> NaN
          \<and> rango (precio x) \<le> rango (precio z))"
    using assms(4) by (simp only: comparar_le_cero_iff)
  have "calificacion y < calificacion x
     \<or> (calificacion x = calificacion y \<and> precio x \<noteq> NaN \<and> precio y \<noteq> NaN
          \<and> rango (precio x) \<le> rango (precio y))"
    using xz assms(2) unfolding c r by blast
  then have "le_cero (comparar_productos x y)"
    by (simp only: comparar_le_cero_iff)
  then show False using assms(3) by simp
qed

section \<open>The merge and the sort\<close>

lemma mezclar_loop_mezcla_rec:
  "i \<le> length xs \<Longrightarrow> j \<le> length ys \<Longrightarrow>
   (case mezclar_loop xs ys i j res of (i', j', r) \<Rightarrow> r @ drop i' xs @ drop j' ys)
     = res @ mezcla_rec (drop i xs) (drop j ys)"
proof (induction xs ys i j res rule: mezclar_loop.induct)
  case (1 xs ys i j res)
  show ?case
  proof (cases "i < length xs \<and> j < length ys")
    case False
    then have "i = length xs \<or> j = length ys" using "1.prems" by auto
    then show ?thesis
      using False by (subst mezclar_loop.simps) (cases "drop i xs"; auto)
  next
    case True
    then have dx: "drop i xs = xs ! i # drop (Suc i) xs" and dy: "drop j ys = ys ! j # drop (Suc j) ys"
      by (simp_all add: Cons_nth_drop_Suc)
    show ?thesis
    proof (cases "le_cero (comparar_productos (xs ! i) (ys ! j))")
      case le: True
      have m: "mezcla_rec (drop i xs) (drop j ys) = xs ! i # mezcla_rec (drop (i + 1) xs) (drop j ys)"
        using le mezcla_rec.simps(3) [of "xs ! i" "drop (Suc i) xs" "ys ! j" "drop (Suc j) ys"]
        by (simp add: dx [symmetric] dy [symmetric])
      have "(case mezclar_loop xs ys (i + 1) j (res @ [xs ! i]) of (i', j', r) \<Rightarrow> r @ drop i' xs @ drop j' ys)
              = (res @ [xs ! i]) @ mezcla_rec (drop (i + 1) xs) (drop j ys)"
        using "1.IH"(1) [OF True le] True "1.prems" by simp
      then show ?thesis
        using True le by (subst mezclar_loop.simps) (simp add: m)
    next
      case gt: False
      have m: "mezcla_rec (drop i xs) (drop j ys) = ys ! j # mezcla_rec (drop i xs) (drop (j + 1) ys)"
        using gt mezcla_rec.simps(3) [of "xs ! i" "drop (Suc i) xs" "ys ! j" "drop (Suc j) ys"]
        by (simp add: dx [symmetric] dy [symmetric])
      have "(case mezclar_loop xs ys i (j + 1) (res @ [ys ! j]) of (i', j', r) \<Rightarrow> r @ drop i' xs @ drop j' ys)
              = (res @ [ys ! j]) @ mezcla_rec (drop i xs) (drop (j + 1) ys)"
        using "1.IH"(2) [OF True gt] True "1.prems" by simp
      then show ?thesis
        using True gt by (subst mezclar_loop.simps) (simp add: m)
    qed
  qed
qed

lemma mezclar_mezcla_rec: "mezclar xs ys = mezcla_rec xs ys"
  using mezclar_loop_mezcla_rec [of 0 xs 0 ys "[]"] by (simp add: mezclar_def)


lemma mset_mezcla_rec: "mset (mezcla_rec xs ys) = mset xs + mset ys"
  by (induction xs ys rule: mezcla_rec.induct) simp_all

lemma set_mezcla_rec: "set (mezcla_rec xs ys) = set xs \<union> set ys"
  using mset_mezcla_rec [of xs ys] by (metis set_mset_mset set_mset_union)

lemma sorted_mezcla_rec:
  "\<forall>p\<in>set xs. precio p \<noteq> NaN \<Longrightarrow> \<forall>p\<in>set ys. precio p \<noteq> NaN
     \<Longrightarrow> sorted_wrt antes_o_igual xs \<Longrightarrow> sorted_wrt antes_o_igual ys
     \<Longrightarrow> sorted_wrt antes_o_igual (mezcla_rec xs ys)"
proof (induction xs ys rule: mezcla_rec.induct)
  case (3 x xs y ys)
  have nx: "precio x \<noteq> NaN" and ny: "precio y \<noteq> NaN"
    using "3.prems"(1,2) by simp_all
  have nxs: "\<forall>p\<in>set xs. precio p \<noteq> NaN" and nys: "\<forall>p\<in>set ys. precio p \<noteq> NaN"
    using "3.prems"(1,2) by simp_all
  have sx: "sorted_wrt antes_o_igual xs" "\<forall>z\<in>set xs. le_cero (comparar_productos x z)"
    and sy: "sorted_wrt antes_o_igual ys" "\<forall>z\<in>set ys. le_cero (comparar_productos y z)"
    using "3.prems"(3,4) by simp_all
  show ?case
  proof (cases "le_cero (comparar_productos x y)")
    case True
    have "\<forall>z\<in>set ys. le_cero (comparar_productos x z)"
      using sy(2) True comparar_trans by blast
    moreover have "sorted_wrt antes_o_igual (mezcla_rec xs (y # ys))"
      using "3.IH"(1) [OF True nxs "3.prems"(2) sx(1) "3.prems"(4)] .
    ultimately show ?thesis
      using True sx(2) by (auto simp: set_mezcla_rec)
  next
    case False
    then have yx: "le_cero (comparar_productos y x)"
      using comparar_total [OF nx ny] by blast
    have "\<forall>z\<in>set xs. le_cero (comparar_productos y z)"
      using sx(2) yx comparar_trans by blast
    moreover have "sorted_wrt antes_o_igual (mezcla_rec (x # xs) ys)"
      using "3.IH"(2) [OF False "3.prems"(1) nys "3.prems"(3) sy(1)] .
    ultimately show ?thesis
      using False yx sy(2) by (auto simp: set_mezcla_rec)
  qed
qed simp_all

lemma merge_sort_halves:
  "\<not> length xs \<le> 1 \<Longrightarrow>
     merge_sort xs = mezcla_rec (merge_sort (take (length xs div 2) xs))
                                (merge_sort (drop (length xs div 2) xs))"
  by (subst merge_sort.simps) (simp add: mezclar_mezcla_rec Let_def)

lemma merge_sort_short: "length xs \<le> 1 \<Longrightarrow> merge_sort xs = xs"
  by (subst merge_sort.simps) simp

lemma mset_merge_sort: "mset (merge_sort xs) = mset xs"
proof (induction xs rule: merge_sort.induct)
  case (1 xs)
  show ?case
  proof (cases "length xs \<le> 1")
    case True
    then show ?thesis by (simp add: merge_sort_short)
  next
    case False
    have "mset (merge_sort xs) = mset (take (length xs div 2) xs) + mset (drop (length xs div 2) xs)"
      using "1.IH" [OF False refl refl refl] False
      by (simp add: merge_sort_halves mset_mezcla_rec)
    also have "\<dots> = mset (take (length xs div 2) xs @ drop (length xs div 2) xs)"
      by (simp only: mset_append)
    finally show ?thesis by simp
  qed
qed

lemma set_merge_sort: "set (merge_sort xs) = set xs"
  using mset_merge_sort [of xs] by (metis set_mset_mset)

lemma sorted_merge_sort:
  "\<forall>p\<in>set xs. precio p \<noteq> NaN \<Longrightarrow> sorted_wrt antes_o_igual (merge_sort xs)"
proof (induction xs rule: merge_sort.induct)
  case (1 xs)
  show ?case
  proof (cases "length xs \<le> 1")
    case True
    then show ?thesis
      by (cases xs) (auto simp: merge_sort_short)
  next
    case False
    let ?m = "length xs div 2"
    have nl: "\<forall>p\<in>set (take ?m xs). precio p \<noteq> NaN" and nr: "\<forall>p\<in>set (drop ?m xs). precio p \<noteq> NaN"
      using "1.prems" by (auto dest: in_set_takeD in_set_dropD)
    have "sorted_wrt antes_o_igual (merge_sort (take ?m xs))"
      and "sorted_wrt antes_o_igual (merge_sort (drop ?m xs))"
      using "1.IH"(1) [OF False refl refl refl nl] "1.IH"(2) [OF False refl refl refl refl nr]
      by simp_all
    then show ?thesis
      using False nl nr by (simp add: merge_sort_halves sorted_mezcla_rec set_merge_sort)
  qed
qed

lemma filter_mezcla_rec:
  "\<forall>p\<in>set xs. precio p \<noteq> NaN \<Longrightarrow> \<forall>p\<in>set ys. precio p \<noteq> NaN
   \<Longrightarrow> sorted_wrt antes_o_igual xs \<Longrightarrow>
   filter (\<lambda>p. calificacion p = c \<and> igual (precio p) v) (mezcla_rec xs ys)
     = filter (\<lambda>p. calificacion p = c \<and> igual (precio p) v) xs
       @ filter (\<lambda>p. calificacion p = c \<and> igual (precio p) v) ys"
proof (induction xs ys rule: mezcla_rec.induct)
  case (3 x xs y ys)
  let ?P = "\<lambda>p. calificacion p = c \<and> igual (precio p) v"
  have nx: "precio x \<noteq> NaN" and ny: "precio y \<noteq> NaN"
    using "3.prems"(1,2) by simp_all
  have nxs: "\<forall>p\<in>set xs. precio p \<noteq> NaN" and nys: "\<forall>p\<in>set ys. precio p \<noteq> NaN"
    using "3.prems"(1,2) by simp_all
  have sx: "sorted_wrt antes_o_igual xs" "\<forall>z\<in>set xs. le_cero (comparar_productos x z)"
    using "3.prems"(3) by simp_all
  show ?case
  proof (cases "le_cero (comparar_productos x y)")
    case True
    then show ?thesis
      using "3.IH"(1) [OF True nxs "3.prems"(2) sx(1)] by simp
  next
    case False
    have none: "filter ?P (x # xs) = []" if k: "?P y"
    proof -
      have "\<forall>z\<in>set (x # xs). le_cero (comparar_productos x z)"
        using sx(2) comparar_refl [OF nx] by auto
      then have d: "\<forall>z\<in>set (x # xs). calificacion z \<noteq> calificacion y \<or> \<not> igual (precio z) (precio y)"
        using comparar_gt_trans [OF nx ny False] by blast
      have nv: "v \<noteq> NaN" using k igual_NaN(2) by metis
      have "\<not> ?P z" if z: "z \<in> set (x # xs)" for z
      proof
        assume pz: "?P z"
        have nz: "precio z \<noteq> NaN" using z "3.prems"(1) by auto
        have "rango (precio z) = rango v" "rango (precio y) = rango v"
          using pz k igual_rango [OF nz nv] igual_rango [OF ny nv] by simp_all
        then have "igual (precio z) (precio y)"
          using igual_rango [OF nz ny] by simp
        then show False using d z pz k by auto
      qed
      then show ?thesis by (auto simp: filter_empty_conv)
    qed
    have "filter ?P (mezcla_rec (x # xs) (y # ys))
            = filter ?P [y] @ filter ?P (x # xs) @ filter ?P ys"
      using "3.IH"(2) [OF False "3.prems"(1) nys "3.prems"(3)] False by simp
    then show ?thesis
      using none by (cases "?P y") simp_all
  qed
qed simp_all

lemma filter_merge_sort:
  "\<forall>p\<in>set xs. precio p \<noteq> NaN \<Longrightarrow>
   filter (\<lambda>p. calificacion p = c \<and> igual (precio p) v) (merge_sort xs)
     = filter (\<lambda>p. calificacion p = c \<and> igual (precio p) v) xs"
proof (induction xs rule: merge_sort.induct)
  case (1 xs)
  show ?case
  proof (cases "length xs \<le> 1")
    case True
    then show ?thesis by (simp add: merge_sort_short)
  next
    case False
    let ?P = "\<lambda>p. calificacion p = c \<and> igual (precio p) v"
    let ?m = "length xs div 2"
    have nl: "\<forall>p\<in>set (take ?m xs). precio p \<noteq> NaN" and nr: "\<forall>p\<in>set (drop ?m xs). precio p \<noteq> NaN"
      using "1.prems" by (auto dest: in_set_takeD in_set_dropD)
    have "filter ?P (merge_sort xs)
            = filter ?P (merge_sort (take ?m xs)) @ filter ?P (merge_sort (drop ?m xs))"
      using False nl nr
      by (simp add: merge_sort_halves filter_mezcla_rec sorted_merge_sort set_merge_sort)
    also have "\<dots> = filter ?P (take ?m xs) @ filter ?P (drop ?m xs)"
      using "1.IH"(1) [OF False refl refl refl nl] "1.IH"(2) [OF False refl refl refl refl nr]
      by simp
    also have "\<dots> = filter ?P (take ?m xs @ drop ?m xs)"
      by (simp only: filter_append)
    finally show ?thesis by simp
  qed
qed

lemma mezcla_rec_append:
  "\<forall>x\<in>set xs. \<forall>y\<in>set ys. le_cero (comparar_productos x y) \<Longrightarrow> mezcla_rec xs ys = xs @ ys"
  by (induction xs ys rule: mezcla_rec.induct) auto

lemma merge_sort_sorted_id: "sorted_wrt antes_o_igual xs \<Longrightarrow> merge_sort xs = xs"
proof (induction xs rule: merge_sort.induct)
  case (1 xs)
  show ?case
  proof (cases "length xs \<le> 1")
    case True
    then show ?thesis by (simp add: merge_sort_short)
  next
    case False
    let ?m = "length xs div 2"
    have split: "sorted_wrt antes_o_igual (take ?m xs @ drop ?m xs)"
      using "1.prems" by simp
    then have l: "sorted_wrt antes_o_igual (take ?m xs)" and r: "sorted_wrt antes_o_igual (drop ?m xs)"
      and lr: "\<forall>x\<in>set (take ?m xs). \<forall>y\<in>set (drop ?m xs). le_cero (comparar_productos x y)"
      unfolding sorted_wrt_append by blast+
    have "merge_sort xs = mezcla_rec (take ?m xs) (drop ?m xs)"
      using "1.IH"(1) [OF False refl refl refl l] "1.IH"(2) [OF False refl refl refl refl r] False
      by (simp add: merge_sort_halves)
    then show ?thesis
      using lr by (simp add: mezcla_rec_append)
  qed
qed

lemma successively_sorted_wrt_comparar:
  "successively antes_o_igual xs \<longleftrightarrow> sorted_wrt antes_o_igual xs"
  by (rule successively_conv_sorted_wrt) (auto simp: transp_def intro: comparar_trans)


section \<open>Reporting, loader and main: auxiliary facts\<close>

lemma contar_gen:
  "(if \<forall>p\<in>set ps. calificacion p \<in> fst ` set al
    then \<exists>c. contar al ps = Inr c \<and> fst ` set c = fst ` set al
    else contar al ps = Inl KeyError)"
proof (induction ps arbitrary: al)
  case Nil
  show ?case by simp
next
  case (Cons p ps)
  show ?case
  proof (cases "map_of al (calificacion p)")
    case None
    then have "calificacion p \<notin> fst ` set al"
      by (simp add: map_of_eq_None_iff)
    then show ?thesis using None by auto
  next
    case (Some n)
    then have k: "calificacion p \<in> fst ` set al"
      by (force dest: map_of_SomeD)
    have d: "fst ` set (AList.update (calificacion p) (Suc n) al) = fst ` set al"
      using k by (auto simp: dom_update)
    show ?thesis
      using Cons.IH [of "AList.update (calificacion p) (Suc n) al"] Some k
      unfolding d by simp
  qed
qed

lemma lineas_no_error:
  "n \<noteq> 0 \<Longrightarrow> snd (lineas_calificacion n al impreso) = None"
  by (induction n al impreso rule: lineas_calificacion.induct) simp_all










section \<open>The store model computes the sort and keeps what exists\<close>

lemma append_st_simps:
  "objetos (append_st l x s) = objetos s"
  "listas (append_st l x s) = (listas s)[l := listas s ! l @ [x]]"
  by (simp_all add: append_st_def)

lemma mezclar_loop_st_correcto:
  assumes "resultado \<noteq> izquierda" "resultado \<noteq> derecha" "resultado < length (listas s)"
  shows "\<exists>i' j' s' R. mezclar_loop_st izquierda derecha i j resultado s = Some (i', j', s')
           \<and> objetos s' = objetos s \<and> listas s' = (listas s)[resultado := R]
           \<and> mezclar_loop (valores s izquierda) (valores s derecha) i j (valores s resultado)
               = (i', j', map (objeto s) R)"
  using assms(3)
proof (induction "(length (listas s ! izquierda) - i) + (length (listas s ! derecha) - j)"
         arbitrary: i j s rule: less_induct)
  case less
  let ?L = "listas s ! izquierda" and ?D = "listas s ! derecha"
  show ?case
  proof (cases "i < length ?L \<and> j < length ?D")
    case False
    have "mezclar_loop_st izquierda derecha i j resultado s = Some (i, j, s)"
      using False by (subst mezclar_loop_st.simps) auto
    moreover have "mezclar_loop (valores s izquierda) (valores s derecha) i j (valores s resultado)
                     = (i, j, map (objeto s) (listas s ! resultado))"
      using False by (subst mezclar_loop.simps) (auto simp: valores_def)
    moreover have "listas s = (listas s)[resultado := listas s ! resultado]"
      by simp
    ultimately show ?thesis by blast
  next
    case True
    let ?a = "objeto s (elemento s izquierda i)" and ?b = "objeto s (elemento s derecha j)"
    have va: "valores s izquierda ! i = ?a" and vb: "valores s derecha ! j = ?b"
      using True by (simp_all add: valores_def elemento_def)
    have len: "i < length (valores s izquierda) \<and> j < length (valores s derecha)"
      using True by (simp add: valores_def)
    show ?thesis
    proof (cases "le_cero (comparar_productos ?a ?b)")
      case le: True
      let ?s1 = "append_st resultado (elemento s izquierda i) s"
      have l1: "listas ?s1 ! izquierda = ?L" "listas ?s1 ! derecha = ?D"
        using assms(1,2) by (simp_all add: append_st_simps)
      have o1: "objetos ?s1 = objetos s" by (simp add: append_st_simps)
      have v1: "valores ?s1 izquierda = valores s izquierda" "valores ?s1 derecha = valores s derecha"
        "valores ?s1 resultado = valores s resultado @ [?a]"
        using l1 less.prems by (simp_all add: valores_def objeto_def o1 append_st_simps)
      have "(length (listas ?s1 ! izquierda) - (i + 1)) + (length (listas ?s1 ! derecha) - j)
              < (length ?L - i) + (length ?D - j)"
        using True unfolding l1 by linarith
      moreover have "resultado < length (listas ?s1)"
        using less.prems by (simp add: append_st_simps)
      ultimately obtain i' j' s' R where
        r: "mezclar_loop_st izquierda derecha (i + 1) j resultado ?s1 = Some (i', j', s')"
        "objetos s' = objetos ?s1" "listas s' = (listas ?s1)[resultado := R]"
        "mezclar_loop (valores ?s1 izquierda) (valores ?s1 derecha) (i + 1) j (valores ?s1 resultado)
               = (i', j', map (objeto ?s1) R)"
        using less.hyps [of ?s1 "i + 1" j] by blast
      have "mezclar_loop_st izquierda derecha i j resultado s = Some (i', j', s')"
        using True le r(1) by (subst mezclar_loop_st.simps) simp
      moreover have "mezclar_loop (valores s izquierda) (valores s derecha) i j (valores s resultado)
               = (i', j', map (objeto s) R)"
        using len le r(4) va vb v1 o1 by (subst mezclar_loop.simps) (simp add: objeto_def)
      moreover have "listas s' = (listas s)[resultado := R]"
        using r(3) by (simp add: append_st_simps)
      ultimately show ?thesis using r(2) o1 by auto
    next
      case gt: False
      let ?s1 = "append_st resultado (elemento s derecha j) s"
      have l1: "listas ?s1 ! izquierda = ?L" "listas ?s1 ! derecha = ?D"
        using assms(1,2) by (simp_all add: append_st_simps)
      have o1: "objetos ?s1 = objetos s" by (simp add: append_st_simps)
      have v1: "valores ?s1 izquierda = valores s izquierda" "valores ?s1 derecha = valores s derecha"
        "valores ?s1 resultado = valores s resultado @ [?b]"
        using l1 less.prems by (simp_all add: valores_def objeto_def o1 append_st_simps)
      have "(length (listas ?s1 ! izquierda) - i) + (length (listas ?s1 ! derecha) - (j + 1))
              < (length ?L - i) + (length ?D - j)"
        using True unfolding l1 by linarith
      moreover have "resultado < length (listas ?s1)"
        using less.prems by (simp add: append_st_simps)
      ultimately obtain i' j' s' R where
        r: "mezclar_loop_st izquierda derecha i (j + 1) resultado ?s1 = Some (i', j', s')"
        "objetos s' = objetos ?s1" "listas s' = (listas ?s1)[resultado := R]"
        "mezclar_loop (valores ?s1 izquierda) (valores ?s1 derecha) i (j + 1) (valores ?s1 resultado)
               = (i', j', map (objeto ?s1) R)"
        using less.hyps [of ?s1 i "j + 1"] by blast
      have "mezclar_loop_st izquierda derecha i j resultado s = Some (i', j', s')"
        using True gt r(1) by (subst mezclar_loop_st.simps) simp
      moreover have "mezclar_loop (valores s izquierda) (valores s derecha) i j (valores s resultado)
               = (i', j', map (objeto s) R)"
        using len gt r(4) va vb v1 o1 by (subst mezclar_loop.simps) (simp add: objeto_def)
      moreover have "listas s' = (listas s)[resultado := R]"
        using r(3) by (simp add: append_st_simps)
      ultimately show ?thesis using r(2) o1 by auto
    qed
  qed
qed


lemma mezclar_st_correcto:
  assumes "izquierda < length (listas s)" "derecha < length (listas s)"
  shows "\<exists>s' R. mezclar_st izquierda derecha s = Some (length (listas s), s')
           \<and> objetos s' = objetos s \<and> listas s' = listas s @ [R]
           \<and> map (objeto s) R = mezclar (valores s izquierda) (valores s derecha)"
proof -
  let ?res = "length (listas s)"
  let ?s1 = "s\<lparr>listas := listas s @ [[]]\<rparr>"
  have n: "nueva_lista [] s = (?res, ?s1)"
    by (simp add: nueva_lista_def)
  have v1: "valores ?s1 izquierda = valores s izquierda" "valores ?s1 derecha = valores s derecha"
    "valores ?s1 ?res = []"
    using assms by (simp_all add: valores_def objeto_def nth_append)
  obtain i' j' s2 R where
    r: "mezclar_loop_st izquierda derecha 0 0 ?res ?s1 = Some (i', j', s2)"
      "objetos s2 = objetos ?s1" "listas s2 = (listas ?s1)[?res := R]"
      "mezclar_loop (valores ?s1 izquierda) (valores ?s1 derecha) 0 0 (valores ?s1 ?res)
         = (i', j', map (objeto ?s1) R)"
    using mezclar_loop_st_correcto [of ?res izquierda derecha ?s1 0 0] assms by auto
  have l2: "listas s2 = listas s @ [R]"
    using r(3) by simp
  have iz: "listas s2 ! izquierda = listas s ! izquierda" and de: "listas s2 ! derecha = listas s ! derecha"
    using assms l2 by (simp_all add: nth_append)
  let ?s3 = "extend_st ?res (drop i' (listas s2 ! izquierda)) s2"
  let ?s4 = "extend_st ?res (drop j' (listas ?s3 ! derecha)) ?s3"
  have l3: "listas ?s3 = listas s @ [R @ drop i' (listas s ! izquierda)]"
    using l2 iz by (simp add: extend_st_def)
  have de3: "listas ?s3 ! derecha = listas s ! derecha"
    using assms l3 by (simp add: nth_append)
  have l4: "listas ?s4 = listas s @ [R @ drop i' (listas s ! izquierda) @ drop j' (listas s ! derecha)]"
    using l3 de3 by (simp add: extend_st_def)
  have o4: "objetos ?s4 = objetos s"
    using r(2) by (simp add: extend_st_def)
  have m: "mezclar_st izquierda derecha s = Some (?res, ?s4)"
    using n r(1) by (simp add: mezclar_st_def Let_def)
  have "map (objeto s) (R @ drop i' (listas s ! izquierda) @ drop j' (listas s ! derecha))
          = mezclar (valores s izquierda) (valores s derecha)"
    using r(4) unfolding v1 by (simp add: mezclar_def valores_def objeto_def drop_map)
  then show ?thesis
    using m o4 l4 by blast
qed

lemma merge_sort_st_correcto:
  assumes "productos < length (listas s)"
  shows "\<exists>r s' nuevas. merge_sort_st productos s = Some (r, s')
           \<and> r < length (listas s')
           \<and> objetos s' = objetos s \<and> listas s' = listas s @ nuevas
           \<and> valores s' r = merge_sort (valores s productos)"
  using assms
proof (induction "length (listas s ! productos)" arbitrary: productos s rule: less_induct)
  case less
  let ?xs = "listas s ! productos"
  show ?case
  proof (cases "length ?xs \<le> 1")
    case True
    have "merge_sort_st productos s = Some (productos, s)"
      using True by (subst merge_sort_st.simps) simp
    moreover have "valores s productos = merge_sort (valores s productos)"
      using True by (subst merge_sort.simps) (simp add: valores_def)
    ultimately show ?thesis
      using less.prems by auto
  next
    case False
    let ?m = "length ?xs div 2"
    let ?izq = "length (listas s)"
    let ?s1 = "s\<lparr>listas := listas s @ [take ?m ?xs]\<rparr>"
    let ?der = "Suc (length (listas s))"
    let ?s2 = "s\<lparr>listas := listas s @ [take ?m ?xs, drop ?m ?xs]\<rparr>"
    have n1: "nueva_lista (take ?m ?xs) s = (?izq, ?s1)"
      by (simp add: nueva_lista_def)
    have x1: "listas ?s1 ! productos = ?xs"
      using less.prems by (simp add: nth_append)
    have n2: "nueva_lista (drop ?m (listas ?s1 ! productos)) ?s1 = (?der, ?s2)"
      unfolding x1 by (simp add: nueva_lista_def)
    have li: "listas ?s2 ! ?izq = take ?m ?xs" and ld: "listas ?s2 ! ?der = drop ?m ?xs"
      by (simp_all add: nth_append)
    have "length (listas ?s2 ! ?izq) < length ?xs"
      using False unfolding li by simp
    moreover have "?izq < length (listas ?s2)" by simp
    ultimately obtain io s3 n3 where
      a: "merge_sort_st ?izq ?s2 = Some (io, s3)" "io < length (listas s3)"
         "objetos s3 = objetos ?s2" "listas s3 = listas ?s2 @ n3"
         "valores s3 io = merge_sort (valores ?s2 ?izq)"
      using less.hyps [of ?s2 ?izq] by blast
    have ld3: "listas s3 ! ?der = drop ?m ?xs"
      using a(4) by (simp add: nth_append)
    have "length (listas s3 ! ?der) < length ?xs"
      using False unfolding ld3 by simp
    moreover have "?der < length (listas s3)"
      using a(4) by simp
    ultimately obtain do s4 n4 where
      b: "merge_sort_st ?der s3 = Some (do, s4)" "do < length (listas s4)"
         "objetos s4 = objetos s3" "listas s4 = listas s3 @ n4"
         "valores s4 do = merge_sort (valores s3 ?der)"
      using less.hyps [of s3 ?der] by blast
    have io4: "io < length (listas s4)"
      using a(2) b(4) by simp
    obtain s5 R where
      c: "mezclar_st io do s4 = Some (length (listas s4), s5)"
         "objetos s5 = objetos s4" "listas s5 = listas s4 @ [R]"
         "map (objeto s4) R = mezclar (valores s4 io) (valores s4 do)"
      using mezclar_st_correcto [OF io4 b(2)] by blast
    have run: "merge_sort_st productos s = Some (length (listas s4), s5)"
      using False n1 n2 a(1) b(1) c(1)
      by (subst merge_sort_st.simps) (simp add: Let_def)
    have obj: "objetos s5 = objetos s"
      using a(3) b(3) c(2) by simp
    have lst: "listas s5 = listas s @ ([take ?m ?xs, drop ?m ?xs] @ n3 @ n4 @ [R])"
      using a(4) b(4) c(3) by simp
    have ob: "objeto s5 = objeto s" "objeto s4 = objeto s" "objeto s3 = objeto s" "objeto ?s2 = objeto s"
      using a(3) b(3) c(2) by (simp_all add: objeto_def fun_eq_iff)
    have vio: "valores s4 io = valores s3 io"
      using a(2) b(4) by (simp add: valores_def ob nth_append)
    have vi: "valores ?s2 ?izq = take ?m (valores s productos)"
      unfolding valores_def li ob by (simp add: take_map)
    have vd: "valores s3 ?der = drop ?m (valores s productos)"
      unfolding valores_def ld3 ob by (simp add: drop_map)
    have "valores s5 (length (listas s4)) = map (objeto s) R"
      using c(3) by (simp add: valores_def ob)
    also have "\<dots> = mezclar (merge_sort (take ?m (valores s productos)))
                             (merge_sort (drop ?m (valores s productos)))"
      using c(4) a(5) b(5) unfolding ob vio vi vd by simp
    also have "\<dots> = merge_sort (valores s productos)"
      using False by (subst (3) merge_sort.simps) (simp add: valores_def Let_def)
    finally have val: "valores s5 (length (listas s4)) = merge_sort (valores s productos)" .
    have "length (listas s4) < length (listas s5)"
      using c(3) by simp
    then show ?thesis
      using run obj lst val by blast
  qed
qed


section \<open>The examples, evaluated\<close>

lemma rango_ejemplos:
  "rango un_medio = (0, 2 ^ 1073)"
  "rango uno = (0, 2 ^ 1074)"
  "rango dos = (0, 2 * 2 ^ 1074)"
  "un_medio \<noteq> NaN" "uno \<noteq> NaN" "dos \<noteq> NaN"
  by (simp_all add: un_medio_def uno_def dos_def rango_flotante flotante_no_NaN)

lemma rango_escenario:
  "rango (flotante 5 0) = (0, 5 * 2 ^ 1074)"
  "rango (flotante 8 0) = (0, 8 * 2 ^ 1074)"
  "rango (flotante 10 0) = (0, 10 * 2 ^ 1074)"
  "rango (flotante 20 0) = (0, 20 * 2 ^ 1074)"
  by (simp_all add: rango_flotante)

lemma merge_sort_lista_nan:
  "merge_sort lista_nan = [item5 3 un_medio, item5 2 NaN, item5 1 uno]"
  unfolding lista_nan_def
  by (simp add: merge_sort_halves merge_sort_short comparar_le_cero_iff item5_def rango_ejemplos)

lemma merge_sort_merge_sort_lista_nan:
  "merge_sort (merge_sort lista_nan) = [item5 3 un_medio, item5 1 uno, item5 2 NaN]"
  unfolding merge_sort_lista_nan
  by (simp add: merge_sort_halves merge_sort_short comparar_le_cero_iff item5_def rango_ejemplos)

lemma merge_sort_lista_nan_iguales:
  "merge_sort lista_nan_iguales = [item5 3 uno, item5 4 dos, item5 2 NaN, item5 1 uno]"
  unfolding lista_nan_iguales_def
  by (simp add: merge_sort_halves merge_sort_short comparar_le_cero_iff item5_def rango_ejemplos)

lemma menor_o_mayor:
  assumes "a \<noteq> NaN" "b \<noteq> NaN" "\<not> igual a b"
  shows "menor b a \<longleftrightarrow> \<not> menor a b"
proof -
  have "rango a \<noteq> rango b"
    using assms igual_rango by blast
  then have "rango b < rango a \<longleftrightarrow> \<not> rango a < rango b"
    by (metis linorder_neqE not_less_iff_gr_or_eq)
  then show ?thesis
    using menor_rango [OF assms(1,2)] menor_rango [OF assms(2,1)] by simp
qed

lemma igual_no_menor: "igual a b \<Longrightarrow> \<not> menor a b"
  by (cases a; cases b) simp_all

section \<open>Claims about the comparator\<close>

text \<open>
  C5 as stated fails: when a price is not a number, the comparator returns
  not-a-number, which is neither negative, nor zero, nor positive.  Here the two
  products have the same rating, the first price is not a number and the second is
  1.0: neither condition of the claim for a negative or a zero result holds, and yet
  the result is not positive.
\<close>

theorem comparar_productos_nan:
  "\<not> (calificacion (item5 1 uno) < calificacion (item5 2 NaN)
        \<or> (calificacion (item5 2 NaN) = calificacion (item5 1 uno)
             \<and> menor (precio (item5 2 NaN)) (precio (item5 1 uno))))
   \<and> \<not> (calificacion (item5 2 NaN) = calificacion (item5 1 uno)
          \<and> igual (precio (item5 2 NaN)) (precio (item5 1 uno)))
   \<and> \<not> es_positivo (comparar_productos (item5 2 NaN) (item5 1 uno))
   \<and> \<not> es_negativo (comparar_productos (item5 2 NaN) (item5 1 uno))
   \<and> \<not> es_cero (comparar_productos (item5 2 NaN) (item5 1 uno))"
  by (simp add: item5_def comparar_productos_def)

text \<open>
  C5, amended.  For every pair of products \<open>a\<close> and \<open>b\<close> neither of whose prices is
  not-a-number, \<open>comparar_productos a b\<close> is negative exactly when \<open>a\<close> has the higher
  rating, or the same rating and the lower price; it is zero exactly when the ratings
  and the prices are equal; and it is positive otherwise.  In particular the float
  subtraction of two unequal prices, rounded as it is, is never zero.
\<close>

theorem comparar_productos_signo:
  assumes "precio a \<noteq> NaN" and "precio b \<noteq> NaN"
  shows "(es_negativo (comparar_productos a b) \<longleftrightarrow>
            calificacion b < calificacion a
            \<or> (calificacion a = calificacion b \<and> menor (precio a) (precio b)))
       \<and> (es_cero (comparar_productos a b) \<longleftrightarrow>
            calificacion a = calificacion b \<and> igual (precio a) (precio b))
       \<and> (es_positivo (comparar_productos a b) \<longleftrightarrow>
            \<not> (calificacion b < calificacion a
                 \<or> (calificacion a = calificacion b \<and> menor (precio a) (precio b)))
            \<and> \<not> (calificacion a = calificacion b \<and> igual (precio a) (precio b)))
       \<and> (\<not> igual (precio a) (precio b) \<longrightarrow>
            \<not> es_cero (Flotante (restar (precio a) (precio b))))"
proof (cases "calificacion a = calificacion b")
  case False
  have c: "comparar_productos a b = Entero (calificacion b - calificacion a)"
    using False by (simp add: comparar_productos_def)
  have "es_negativo (comparar_productos a b) = (calificacion b < calificacion a)"
    and "\<not> es_cero (comparar_productos a b)"
    and "es_positivo (comparar_productos a b) = (\<not> calificacion b < calificacion a)"
    unfolding c using False by auto
  then show ?thesis
    using False signo_restar(3) [OF assms] by blast
next
  case cal: True
  then have nlt: "\<not> calificacion b < calificacion a" by simp
  show ?thesis
  proof (cases "igual (precio a) (precio b)")
    case True
    have c: "comparar_productos a b = Entero 0"
      using cal True by (simp add: comparar_productos_def)
    have "\<not> es_negativo (comparar_productos a b)" "es_cero (comparar_productos a b)"
      "\<not> es_positivo (comparar_productos a b)"
      unfolding c by simp_all
    then show ?thesis
      using cal nlt True igual_no_menor [OF True] by blast
  next
    case False
    have c: "comparar_productos a b = Flotante (restar (precio a) (precio b))"
      using cal False by (simp add: comparar_productos_def)
    have "es_negativo (comparar_productos a b) = menor (precio a) (precio b)"
      and "\<not> es_cero (comparar_productos a b)"
      and "es_positivo (comparar_productos a b) = (\<not> menor (precio a) (precio b))"
      unfolding c
      using signo_restar [OF assms False] menor_o_mayor [OF assms False] by simp_all
    then show ?thesis
      using cal nlt False by (metis c)
  qed
qed

theorem comparar_productos_signo_witness:
  "es_negativo (comparar_productos (item5 1 uno) (item5 2 dos))
   \<and> \<not> es_cero (comparar_productos (item5 1 uno) (item5 2 dos))
   \<and> \<not> es_positivo (comparar_productos (item5 1 uno) (item5 2 dos))
   \<and> \<not> es_cero (Flotante (restar uno dos))"
proof -
  have n: "precio (item5 1 uno) \<noteq> NaN" "precio (item5 2 dos) \<noteq> NaN"
    by (simp_all add: item5_def rango_ejemplos)
  have m: "menor uno dos" "\<not> igual uno dos"
    by (simp_all add: menor_rango igual_rango rango_ejemplos)
  show ?thesis
    using comparar_productos_signo [OF n] m by (simp add: item5_def)
qed

section \<open>Claims about the merge sort\<close>

text \<open>
  C1 as stated fails: with a price that is not a number the output is not sorted.
  The three products have rating 5 and the prices 1.0, not-a-number and 0.5; the sort
  returns them in the order of ids 3, 2, 1, and neither adjacent pair of that output
  has \<open>comparar_productos x y <= 0\<close>.
\<close>

theorem merge_sort_nan_desordenado:
  "merge_sort lista_nan = [item5 3 un_medio, item5 2 NaN, item5 1 uno]
   \<and> \<not> le_cero (comparar_productos (item5 3 un_medio) (item5 2 NaN))
   \<and> \<not> le_cero (comparar_productos (item5 2 NaN) (item5 1 uno))"
  using merge_sort_lista_nan by (simp add: comparar_le_cero_iff item5_def)

text \<open>
  C1, amended (ordering correctness).  For every list of products none of whose
  prices is not-a-number, the output of \<open>merge_sort\<close> is sorted under the comparator:
  every adjacent pair \<open>(x, y)\<close> of the output has \<open>comparar_productos x y <= 0\<close>.
\<close>

theorem merge_sort_ordenado:
  "\<forall>p\<in>set productos. precio p \<noteq> NaN \<Longrightarrow>
     successively (\<lambda>x y. le_cero (comparar_productos x y)) (merge_sort productos)"
  by (rule successively_if_sorted_wrt) (rule sorted_merge_sort)

theorem merge_sort_ordenado_witness:
  "successively (\<lambda>x y. le_cero (comparar_productos x y)) (merge_sort escenario)"
proof -
  have "\<forall>p\<in>set escenario. precio p \<noteq> NaN"
    by (simp add: escenario_def flotante_no_NaN)
  then show ?thesis by (rule merge_sort_ordenado)
qed

text \<open>
  C2 as stated fails: with a price that is not a number the sort is not stable.
  The four products have rating 5 and the prices 1.0, not-a-number, 1.0 and 2.0; the
  products of ids 1 and 3 have equal rating and equal price, id 1 comes first in the
  input, and the sort returns the order of ids 3, 4, 2, 1.
\<close>

theorem merge_sort_nan_inestable:
  "lista_nan_iguales = [item5 1 uno, item5 2 NaN, item5 3 uno, item5 4 dos]
   \<and> merge_sort lista_nan_iguales = [item5 3 uno, item5 4 dos, item5 2 NaN, item5 1 uno]
   \<and> calificacion (item5 1 uno) = calificacion (item5 3 uno)
   \<and> igual (precio (item5 1 uno)) (precio (item5 3 uno))
   \<and> item5 1 uno \<noteq> item5 3 uno"
  using merge_sort_lista_nan_iguales
  by (simp add: lista_nan_iguales_def item5_def igual_rango rango_ejemplos)

text \<open>
  C2, amended (stability).  For every input list none of whose prices is
  not-a-number, the products of one rating and one price appear in the output in the
  order they have in the input: the subsequence of the products with rating \<open>c\<close> and a
  price equal to \<open>v\<close> is the same in the output and in the input.
\<close>

theorem merge_sort_estable:
  "\<forall>p\<in>set productos. precio p \<noteq> NaN \<Longrightarrow>
     filter (\<lambda>p. calificacion p = c \<and> igual (precio p) v) (merge_sort productos)
       = filter (\<lambda>p. calificacion p = c \<and> igual (precio p) v) productos"
  by (rule filter_merge_sort)

theorem merge_sort_estable_witness:
  "filter (\<lambda>p. calificacion p = 5 \<and> igual (precio p) uno)
       (merge_sort [item5 1 uno, item5 2 dos, item5 3 uno])
     = filter (\<lambda>p. calificacion p = 5 \<and> igual (precio p) uno)
       [item5 1 uno, item5 2 dos, item5 3 uno]"
proof -
  have "\<forall>p\<in>set [item5 1 uno, item5 2 dos, item5 3 uno]. precio p \<noteq> NaN"
    by (simp add: item5_def rango_ejemplos)
  then show ?thesis by (rule merge_sort_estable)
qed

text \<open>
  C3 (permutation).  For every list of products, the output of \<open>merge_sort\<close> has the
  multiset of products of the input, and its length.
\<close>

theorem merge_sort_permutacion:
  "mset (merge_sort productos) = mset productos
     \<and> length (merge_sort productos) = length productos"
proof -
  have m: "mset (merge_sort productos) = mset productos"
    by (rule mset_merge_sort)
  then show ?thesis
    using mset_eq_length by blast
qed

text \<open>
  C6 (scenario).  On the four products of the scenario, \<open>merge_sort\<close> returns them in
  the order of ids 2, 3, 4, 1.
\<close>

theorem merge_sort_escenario:
  "merge_sort escenario =
     [\<lparr>id' = 2, nombre = ''B'', precio = flotante 5 0, calificacion = 5, stock = 2\<rparr>,
      \<lparr>id' = 3, nombre = ''C'', precio = flotante 20 0, calificacion = 5, stock = 1\<rparr>,
      \<lparr>id' = 4, nombre = ''D'', precio = flotante 8 0, calificacion = 3, stock = 9\<rparr>,
      \<lparr>id' = 1, nombre = ''A'', precio = flotante 10 0, calificacion = 3, stock = 5\<rparr>]
   \<and> map id' (merge_sort escenario) = [2, 3, 4, 1]"
  unfolding escenario_def
  by (simp add: merge_sort_halves merge_sort_short comparar_le_cero_iff rango_escenario
        flotante_no_NaN)

text \<open>
  C7 as stated fails: with a price that is not a number, an output of \<open>merge_sort\<close>
  is not returned as it is.  On the products of rating 5 with the prices 1.0,
  not-a-number and 0.5 the sort gives the order of ids 3, 2, 1, and the sort of that
  gives 3, 1, 2.
\<close>

theorem merge_sort_nan_no_idempotente:
  "merge_sort lista_nan = [item5 3 un_medio, item5 2 NaN, item5 1 uno]
   \<and> merge_sort (merge_sort lista_nan) = [item5 3 un_medio, item5 1 uno, item5 2 NaN]
   \<and> merge_sort (merge_sort lista_nan) \<noteq> merge_sort lista_nan"
  using merge_sort_lista_nan merge_sort_merge_sort_lista_nan by (simp add: item5_def)

text \<open>
  C7, amended (idempotence).  A list that is sorted under the comparator (every
  adjacent pair \<open>(x, y)\<close> has \<open>comparar_productos x y <= 0\<close>) is returned as it is,
  whatever its prices; and so is every output of \<open>merge_sort\<close> on a list none of
  whose prices is not-a-number.
\<close>

theorem merge_sort_idempotente:
  "(successively (\<lambda>x y. le_cero (comparar_productos x y)) productos
      \<longrightarrow> merge_sort productos = productos)
   \<and> ((\<forall>p\<in>set productos. precio p \<noteq> NaN)
      \<longrightarrow> merge_sort (merge_sort productos) = merge_sort productos)"
proof
  show "successively (\<lambda>x y. le_cero (comparar_productos x y)) productos
      \<longrightarrow> merge_sort productos = productos"
    by (simp add: successively_sorted_wrt_comparar merge_sort_sorted_id)
  show "(\<forall>p\<in>set productos. precio p \<noteq> NaN)
      \<longrightarrow> merge_sort (merge_sort productos) = merge_sort productos"
  proof
    assume "\<forall>p\<in>set productos. precio p \<noteq> NaN"
    then have "sorted_wrt antes_o_igual (merge_sort productos)"
      by (rule sorted_merge_sort)
    then show "merge_sort (merge_sort productos) = merge_sort productos"
      by (rule merge_sort_sorted_id)
  qed
qed

theorem merge_sort_idempotente_witness:
  "merge_sort [item5 1 un_medio, item5 2 uno, item5 3 dos]
     = [item5 1 un_medio, item5 2 uno, item5 3 dos]
   \<and> merge_sort (merge_sort escenario) = merge_sort escenario"
proof -
  have s: "successively (\<lambda>x y. le_cero (comparar_productos x y))
             [item5 1 un_medio, item5 2 uno, item5 3 dos]"
    by (simp add: comparar_le_cero_iff item5_def rango_ejemplos)
  have n: "\<forall>p\<in>set escenario. precio p \<noteq> NaN"
    by (simp add: escenario_def flotante_no_NaN)
  show ?thesis
    using s n merge_sort_idempotente [of "[item5 1 un_medio, item5 2 uno, item5 3 dos]"]
      merge_sort_idempotente [of escenario]
    by blast
qed

section \<open>Claims about reporting, the loader and main\<close>




text \<open>
  C9 (missing source).  When the file does not exist, \<open>leer_csv\<close> prints the error
  line and returns the empty list without raising; \<open>main\<close> then prints that it
  leaves and returns: nothing is analysed, sorted or written.
\<close>

theorem leer_csv_archivo_inexistente:
  "(archivos nombre_archivo = None \<longrightarrow>
      leer_csv a_int a_float archivos nombre_archivo
        = ([Archivo_no_existe nombre_archivo], Inr []))
   \<and> (archivos ''productos.csv'' = None \<longrightarrow>
      main a_int a_float archivos
        = ([Titulo_sistema, Regla 60, Paso_leer, Archivo_no_existe ''productos.csv'', Saliendo],
           None))"
  by (simp add: leer_csv_def main_def)

theorem leer_csv_archivo_inexistente_witness:
  "(Map.empty :: string \<rightharpoonup> fila list) ''productos.csv'' = None
   \<and> leer_csv (\<lambda>t. None) (\<lambda>t. None) Map.empty ''productos.csv''
        = ([Archivo_no_existe ''productos.csv''], Inr [])
   \<and> main (\<lambda>t. None) (\<lambda>t. None) Map.empty
        = ([Titulo_sistema, Regla 60, Paso_leer, Archivo_no_existe ''productos.csv'', Saliendo],
           None)"
  using leer_csv_archivo_inexistente
    [of "Map.empty :: string \<rightharpoonup> fila list" "''productos.csv''" "\<lambda>t. None" "\<lambda>t. None"]
  by simp

text \<open>
  C10 (rating domain).  When every product of the list has its rating in
  \<open>{1, 2, 3, 4, 5}\<close>, the counting loop ends with the dictionary and
  \<open>analizar_datos\<close> raises no \<open>KeyError\<close>; when some product has a rating outside, the
  counting loop raises \<open>KeyError\<close>, and so does \<open>analizar_datos\<close>, after its two heading
  lines.
\<close>

theorem contar_dominio:
  "((\<forall>p\<in>set productos. calificacion p \<in> {1, 2, 3, 4, 5}) \<longrightarrow>
      (\<exists>c. contar calificaciones_inicial productos = Inr c)
      \<and> snd (analizar_datos productos) \<noteq> Some KeyError)
   \<and> ((\<exists>p\<in>set productos. calificacion p \<notin> {1, 2, 3, 4, 5}) \<longrightarrow>
      contar calificaciones_inicial productos = Inl KeyError
      \<and> analizar_datos productos = ([Titulo_analisis, Regla 50], Some KeyError))"
proof -
  have claves: "fst ` set calificaciones_inicial = {1, 2, 3, 4, 5}"
    by (simp add: calificaciones_inicial_def)
  show ?thesis
  proof (cases "\<forall>p\<in>set productos. calificacion p \<in> {1, 2, 3, 4, 5}")
    case True
    then obtain c where c: "contar calificaciones_inicial productos = Inr c"
      using contar_gen [of productos calificaciones_inicial] unfolding claves by auto
    have "snd (analizar_datos productos) \<noteq> Some KeyError"
    proof (cases "productos = []")
      case True
      then show ?thesis by (simp add: analizar_datos_def calificaciones_inicial_def)
    next
      case False
      have "snd (lineas_calificacion (length productos) (rev (sort c)) [Titulo_analisis, Regla 50]) = None"
        using False by (simp add: lineas_no_error)
      then obtain out where
        "lineas_calificacion (length productos) (rev (sort c)) [Titulo_analisis, Regla 50] = (out, None)"
        by (metis prod.collapse)
      then show ?thesis
        using c by (simp add: analizar_datos_def Let_def split: list.splits)
    qed
    then show ?thesis using True c by blast
  next
    case False
    then have "contar calificaciones_inicial productos = Inl KeyError"
      using contar_gen [of productos calificaciones_inicial] unfolding claves by auto
    then show ?thesis using False by (simp add: analizar_datos_def)
  qed
qed

theorem contar_dominio_witness:
  "(\<exists>c. contar calificaciones_inicial escenario = Inr c)
   \<and> snd (analizar_datos escenario) \<noteq> Some KeyError
   \<and> contar calificaciones_inicial
        [\<lparr>id' = 9, nombre = ''Z'', precio = flotante 1 0, calificacion = 7, stock = 0\<rparr>] = Inl KeyError
   \<and> analizar_datos [\<lparr>id' = 9, nombre = ''Z'', precio = flotante 1 0, calificacion = 7, stock = 0\<rparr>]
        = ([Titulo_analisis, Regla 50], Some KeyError)"
proof -
  have h1: "\<forall>p\<in>set escenario. calificacion p \<in> {1, 2, 3, 4, 5}"
    by (simp add: escenario_def)
  have h2: "\<exists>p\<in>set [\<lparr>id' = 9, nombre = ''Z'', precio = flotante 1 0, calificacion = 7, stock = 0\<rparr>].
         calificacion p \<notin> {1, 2, 3, 4, 5}"
    by simp
  show ?thesis
    using h1 h2 contar_dominio [of escenario]
      contar_dominio [of "[\<lparr>id' = 9, nombre = ''Z'', precio = flotante 1 0, calificacion = 7, stock = 0\<rparr>]"]
    by blast
qed



section \<open>Claims about mutation\<close>

text \<open>
  C8 (no mutation of the input).  Let \<open>productos\<close> be a list object of the store.
  \<open>merge_sort\<close> returns, and so does \<open>analizar_datos\<close> (with or without an exception);
  after either, every product object has the fields it had, every list object that
  existed has the elements it had in the order it had them (the store has only grown
  by new list objects), and so in particular the input list.
\<close>

theorem sin_mutacion:
  "productos < length (listas s) \<Longrightarrow>
     (\<exists>r s' nuevas. merge_sort_st productos s = Some (r, s')
        \<and> objetos s' = objetos s \<and> listas s' = listas s @ nuevas
        \<and> listas s' ! productos = listas s ! productos)
   \<and> (\<exists>res s' nuevas. analizar_datos_st productos s = (res, s')
        \<and> objetos s' = objetos s \<and> listas s' = listas s @ nuevas
        \<and> listas s' ! productos = listas s ! productos)"
proof
  assume p: "productos < length (listas s)"
  obtain r s' nuevas where
    m: "merge_sort_st productos s = Some (r, s')" "objetos s' = objetos s"
       "listas s' = listas s @ nuevas"
    using merge_sort_st_correcto [OF p] by blast
  have "listas s' ! productos = listas s ! productos"
    using p m(3) by (simp add: nth_append)
  then show "\<exists>r s' nuevas. merge_sort_st productos s = Some (r, s')
        \<and> objetos s' = objetos s \<and> listas s' = listas s @ nuevas
        \<and> listas s' ! productos = listas s ! productos"
    using m by blast
next
  assume p: "productos < length (listas s)"
  obtain res s' where a: "analizar_datos_st productos s = (res, s')"
    by (cases "analizar_datos_st productos s")
  have "objetos s' = objetos s \<and> (\<exists>nuevas. listas s' = listas s @ nuevas)"
    using a by (auto simp: analizar_datos_st_def nueva_lista_def split: prod.splits option.splits)
  then obtain nuevas where f: "objetos s' = objetos s" "listas s' = listas s @ nuevas"
    by blast
  have "listas s' ! productos = listas s ! productos"
    using p f(2) by (simp add: nth_append)
  then show "\<exists>res s' nuevas. analizar_datos_st productos s = (res, s')
        \<and> objetos s' = objetos s \<and> listas s' = listas s @ nuevas
        \<and> listas s' ! productos = listas s ! productos"
    using a f by blast
qed

theorem sin_mutacion_witness:
  "(\<exists>r s' nuevas. merge_sort_st 0 almacen_escenario = Some (r, s')
        \<and> objetos s' = objetos almacen_escenario
        \<and> listas s' = listas almacen_escenario @ nuevas
        \<and> listas s' ! 0 = listas almacen_escenario ! 0)
   \<and> (\<exists>res s' nuevas. analizar_datos_st 0 almacen_escenario = (res, s')
        \<and> objetos s' = objetos almacen_escenario
        \<and> listas s' = listas almacen_escenario @ nuevas
        \<and> listas s' ! 0 = listas almacen_escenario ! 0)"
proof -
  have h: "0 < length (listas almacen_escenario)"
    by (simp add: almacen_escenario_def)
  show ?thesis
    using sin_mutacion [OF h] by blast
qed


end
